theory Spec2Isabelle
  imports Complex_Main "HOL-Library.Word" "HOL-Library.Log_Nat"
begin

section \<open>Python floats\<close>

text \<open>
  A Python float is an IEEE binary64 number; here it is the rational it denotes. Every
  arithmetic operation on floats gives the exact result rounded to the nearest binary64
  number, ties to the even significand: 53 bits of significand, and below \<open>2 ^ - 1022\<close> the
  fixed spacing \<open>2 ^ - 1074\<close>. Infinities and NaN are not modelled: the values are finite
  and results stay below \<open>2 ^ 1024\<close>.
\<close>

definition round_half_even :: "rat \<Rightarrow> int" where
  "round_half_even r =
     (let f = \<lfloor>r\<rfloor>; d = r - of_int f
      in if d < 1 / 2 then f
         else if 1 / 2 < d then f + 1
         else if even f then f else f + 1)"

text \<open>For \<open>a > 0\<close>, the \<open>e\<close> with \<open>2 ^ e \<le> a < 2 ^ (e + 1)\<close>.\<close>

definition float_exponent :: "rat \<Rightarrow> int" where
  "float_exponent a =
     (if 1 \<le> a then bitlen \<lfloor>a\<rfloor> - 1 else - bitlen (\<lceil>1 / a\<rceil> - 1))"

definition round_double :: "rat \<Rightarrow> rat" where
  "round_double x =
     (if x = 0 then 0
      else
        let q = max (float_exponent \<bar>x\<bar>) (- 1022) - 52;
            m = round_half_even (\<bar>x\<bar> / 2 powi q)
        in sgn x * of_int m * 2 powi q)"

definition fadd :: "rat \<Rightarrow> rat \<Rightarrow> rat" where
  "fadd a b = round_double (a + b)"

definition fsub :: "rat \<Rightarrow> rat \<Rightarrow> rat" where
  "fsub a b = round_double (a - b)"

definition fmul :: "rat \<Rightarrow> rat \<Rightarrow> rat" where
  "fmul a b = round_double (a * b)"

text \<open>The divisor is checked for zero by the caller, as Python raises there.\<close>

definition fdiv :: "rat \<Rightarrow> rat \<Rightarrow> rat" where
  "fdiv a b = round_double (a / b)"

text \<open>\<^verbatim>\<open>float(i)\<close> for an integer, and the true division \<^verbatim>\<open>i / j\<close> of two integers.\<close>

definition float_of_int :: "int \<Rightarrow> rat" where
  "float_of_int i = round_double (rat_of_int i)"

definition int_true_div :: "int \<Rightarrow> int \<Rightarrow> rat" where
  "int_true_div i j = round_double (rat_of_int i / rat_of_int j)"

section \<open>The smart turn analyzer (pipecat/audio/turn/base_smart_turn.py)\<close>

text \<open>
  The wall clock \<^verbatim>\<open>time.time()\<close> is an input: a call of the analyzer receives a function
  \<open>clk\<close> whose value at \<open>k\<close> is what the \<open>k\<close>-th reading of the clock inside that
  call returns. Logging has no effect on the state and is left out.
\<close>

type_synonym byte = "8 word"
type_synonym int16 = "16 word"
type_synonym clock = "nat \<Rightarrow> rat"

datatype EndOfTurnState = COMPLETE | INCOMPLETE

datatype py_error = ValueError | ZeroDivisionError | TypeError | KeyError

definition STOP_SECS :: rat where
  "STOP_SECS = 3"

definition PRE_SPEECH_MS :: rat where
  "PRE_SPEECH_MS = 0"

definition MAX_DURATION_SECONDS :: rat where
  "MAX_DURATION_SECONDS = 8"

definition USE_ONLY_LAST_VAD_SEGMENT :: bool where
  "USE_ONLY_LAST_VAD_SEGMENT = True"

record SmartTurnParams =
  stop_secs :: rat
  pre_speech_ms :: rat
  max_duration_secs :: rat

definition default_SmartTurnParams :: SmartTurnParams where
  "default_SmartTurnParams =
     \<lparr>stop_secs = STOP_SECS, pre_speech_ms = PRE_SPEECH_MS,
      max_duration_secs = MAX_DURATION_SECONDS\<rparr>"

text \<open>
  The fields of \<^verbatim>\<open>BaseSmartTurn\<close>. \<open>sample_rate\<close> is the \<^verbatim>\<open>_sample_rate\<close> the base class
  \<^verbatim>\<open>BaseTurnAnalyzer\<close> holds (the base class is outside these sources, so the rate
  is a field the caller sets). A buffer entry is a timestamp and a chunk of samples.
\<close>

record BaseSmartTurn =
  params :: SmartTurnParams
  sample_rate :: int
  stop_ms :: rat
  audio_buffer :: "(rat \<times> rat list) list"
  speech_triggered :: bool
  silence_ms :: rat
  speech_start_time :: "rat option"

definition BaseSmartTurn_init :: "int \<Rightarrow> SmartTurnParams \<Rightarrow> BaseSmartTurn" where
  "BaseSmartTurn_init rate p =
     \<lparr>params = p, sample_rate = rate, stop_ms = fmul (stop_secs p) 1000,
      audio_buffer = [], speech_triggered = False, silence_ms = 0,
      speech_start_time = None\<rparr>"

text \<open>
  \<^verbatim>\<open>np.frombuffer(buffer, dtype=np.int16)\<close>: two bytes per sample, low byte first; a
  buffer of odd length raises ValueError.
\<close>

fun frombuffer_int16 :: "byte list \<Rightarrow> py_error + int16 list" where
  "frombuffer_int16 [] = Inr []"
| "frombuffer_int16 [b] = Inl ValueError"
| "frombuffer_int16 (lo # hi # rest) =
     (case frombuffer_int16 rest of
        Inl e \<Rightarrow> Inl e
      | Inr ws \<Rightarrow> Inr (word_cat hi lo # ws))"

text \<open>
  \<^verbatim>\<open>audio_int16.astype(np.float32) / 32768.0\<close>. A 16-bit integer is a float32 exactly, and
  its quotient by the power of two 32768 is one too: no rounding takes place.
\<close>

definition to_float32 :: "int16 list \<Rightarrow> rat list" where
  "to_float32 audio_int16 = map (\<lambda>w. rat_of_int (sint w) / 32768) audio_int16"

text \<open>\<^verbatim>\<open>_clear\<close>: the triggered flag stays set exactly when the turn is still incomplete.\<close>

definition clear :: "BaseSmartTurn \<Rightarrow> EndOfTurnState \<Rightarrow> BaseSmartTurn" where
  "clear s turn_state =
     s\<lparr>speech_triggered := (turn_state = INCOMPLETE),
       audio_buffer := [],
       speech_start_time := None,
       silence_ms := 0\<rparr>"

text \<open>
  The trimming loop of \<^verbatim>\<open>append_audio\<close>: while the buffer is non-empty and its head is
  older than \<^verbatim>\<open>time.time() - max_buffer_time\<close>, pop the head. Every test of the loop
  condition on a non-empty buffer reads the clock again; \<open>k\<close> counts the readings.
\<close>

fun trim_buffer :: "clock \<Rightarrow> nat \<Rightarrow> rat \<Rightarrow> (rat \<times> rat list) list \<Rightarrow> (rat \<times> rat list) list" where
  "trim_buffer clk k max_buffer_time [] = []"
| "trim_buffer clk k max_buffer_time (e # rest) =
     (if fst e < fsub (clk k) max_buffer_time
      then trim_buffer clk (Suc k) max_buffer_time rest
      else e # rest)"

definition append_audio ::
    "BaseSmartTurn \<Rightarrow> clock \<Rightarrow> byte list \<Rightarrow> bool \<Rightarrow> py_error + (EndOfTurnState \<times> BaseSmartTurn)" where
  "append_audio s clk buffer is_speech =
     (case frombuffer_int16 buffer of
        Inl e \<Rightarrow> Inl e
      | Inr audio_int16 \<Rightarrow>
          let audio_float32 = to_float32 audio_int16;
              s1 = s\<lparr>audio_buffer := audio_buffer s @ [(clk 0, audio_float32)]\<rparr>
          in if is_speech then
               Inr (INCOMPLETE,
                    s1\<lparr>silence_ms := 0,
                       speech_triggered := True,
                       speech_start_time :=
                         (case speech_start_time s1 of
                            None \<Rightarrow> Some (clk 1)
                          | Some t \<Rightarrow> Some t)\<rparr>)
             else if speech_triggered s1 then
               (let divisor = int_true_div (sample_rate s1) 1000
                in if divisor = 0 then Inl ZeroDivisionError
                   else
                     let chunk_duration_ms =
                           fdiv (float_of_int (int (length audio_int16))) divisor;
                         s2 = s1\<lparr>silence_ms := fadd (silence_ms s1) chunk_duration_ms\<rparr>
                     in if silence_ms s2 \<ge> stop_ms s2
                        then Inr (COMPLETE, clear s2 COMPLETE)
                        else Inr (INCOMPLETE, s2))
             else
               let max_buffer_time =
                     fadd (fadd (fdiv (pre_speech_ms (params s1)) 1000) (stop_secs (params s1)))
                       (max_duration_secs (params s1))
               in Inr (INCOMPLETE,
                       s1\<lparr>audio_buffer := trim_buffer clk 1 max_buffer_time (audio_buffer s1)\<rparr>))"

text \<open>
  The result of the injected endpoint classifier \<^verbatim>\<open>_predict_endpoint\<close> (abstract in the
  source): a dictionary with a prediction and a probability.
\<close>

record prediction_result =
  prediction :: int
  probability :: rat

type_synonym classifier = "rat list \<Rightarrow> prediction_result"

text \<open>
  The search loop for the start of the segment: the index of the first entry whose
  timestamp is at least \<open>start_time\<close>; when the loop runs off the end, \<open>start_index\<close>
  keeps its initial value 0.
\<close>

fun find_start_index :: "rat \<Rightarrow> nat \<Rightarrow> (rat \<times> rat list) list \<Rightarrow> nat" where
  "find_start_index start_time i [] = 0"
| "find_start_index start_time i (e # rest) =
     (if fst e \<ge> start_time then i else find_start_index start_time (Suc i) rest)"

text \<open>\<^verbatim>\<open>int(x)\<close> on a float truncates towards zero.\<close>

definition py_int :: "rat \<Rightarrow> int" where
  "py_int x = (if 0 \<le> x then \<lfloor>x\<rfloor> else \<lceil>x\<rceil>)"

text \<open>
  The slice \<^verbatim>\<open>a[k:]\<close>: a negative \<open>k\<close> counts from the end, and both ends are
  clipped to the array. Note that \<^verbatim>\<open>a[-0:]\<close> is \<^verbatim>\<open>a[0:]\<close>, the whole array.
\<close>

definition slice_from :: "'a list \<Rightarrow> int \<Rightarrow> 'a list" where
  "slice_from a k =
     (if k < 0 then drop (nat (max 0 (int (length a) + k))) a
      else drop (nat (min k (int (length a)))) a)"

text \<open>
  \<^verbatim>\<open>_process_speech_segment\<close> returns the decision; the model returns also the list of
  segments handed to the classifier (empty when the classifier is not invoked).
  With a non-empty buffer and no speech start time, \<^verbatim>\<open>None - float\<close> raises TypeError.
\<close>

definition process_speech_segment ::
    "BaseSmartTurn \<Rightarrow> classifier \<Rightarrow> (rat \<times> rat list) list
       \<Rightarrow> py_error + (EndOfTurnState \<times> rat list list)" where
  "process_speech_segment s predict_endpoint buf =
     (if buf = [] then Inr (INCOMPLETE, [])
      else
        (case speech_start_time s of
           None \<Rightarrow> Inl TypeError
         | Some t0 \<Rightarrow>
             let start_time = fsub t0 (fdiv (pre_speech_ms (params s)) 1000);
                 start_index = find_start_index start_time 0 buf;
                 end_index = length buf - 1;
                 segment_audio_chunks = map snd (take (end_index + 1 - start_index) (drop start_index buf));
                 segment_audio = concat segment_audio_chunks;
                 max_samples =
                   py_int (fmul (max_duration_secs (params s)) (float_of_int (sample_rate s)));
                 segment_audio' =
                   (if int (length segment_audio) > max_samples
                    then slice_from segment_audio (- max_samples)
                    else segment_audio)
             in if length segment_audio' > 0 then
                  let result = predict_endpoint segment_audio'
                  in Inr (if prediction result = 1 then COMPLETE else INCOMPLETE,
                          [segment_audio'])
                else Inr (INCOMPLETE, [])))"

definition analyze_end_of_turn ::
    "BaseSmartTurn \<Rightarrow> classifier
       \<Rightarrow> py_error + (EndOfTurnState \<times> BaseSmartTurn \<times> rat list list)" where
  "analyze_end_of_turn s predict_endpoint =
     (case process_speech_segment s predict_endpoint (audio_buffer s) of
        Inl e \<Rightarrow> Inl e
      | Inr (state, calls) \<Rightarrow>
          Inr (state,
               if state = COMPLETE \<or> USE_ONLY_LAST_VAD_SEGMENT then clear s state else s,
               calls))"

text \<open>
  A caller's loop: successive calls of \<^verbatim>\<open>append_audio\<close>, one per chunk, collecting the
  decisions; an exception ends the run.
\<close>

fun append_audio_all ::
    "BaseSmartTurn \<Rightarrow> (clock \<times> byte list \<times> bool) list
       \<Rightarrow> py_error + (EndOfTurnState list \<times> BaseSmartTurn)" where
  "append_audio_all s [] = Inr ([], s)"
| "append_audio_all s ((clk, buffer, is_speech) # calls) =
     (case append_audio s clk buffer is_speech of
        Inl e \<Rightarrow> Inl e
      | Inr (d, s') \<Rightarrow>
          (case append_audio_all s' calls of
             Inl e \<Rightarrow> Inl e
           | Inr (ds, s'') \<Rightarrow> Inr (d # ds, s'')))"

text \<open>
  The duration in milliseconds that \<^verbatim>\<open>append_audio\<close> computes for a buffer of 16-bit
  mono audio, from its sample count and the sample rate, and the calls that feed a silence
  chunk for which it computes the duration \<open>d\<close>.
\<close>

definition chunk_ms :: "int \<Rightarrow> byte list \<Rightarrow> rat" where
  "chunk_ms rate buffer =
     fdiv (float_of_int (int (length buffer div 2))) (int_true_div rate 1000)"

definition silence_chunk :: "int \<Rightarrow> rat \<Rightarrow> (clock \<times> byte list \<times> bool) \<Rightarrow> bool" where
  "silence_chunk rate d c =
     (case c of (clk, buffer, is_speech) \<Rightarrow>
        \<not> is_speech \<and> even (length buffer) \<and> int_true_div rate 1000 \<noteq> 0
          \<and> chunk_ms rate buffer = d)"

text \<open>
  The silence accumulator after \<open>k\<close> further silence chunks of computed duration \<open>d\<close>:
  \<open>k\<close> float additions.
\<close>

definition accumulate :: "rat \<Rightarrow> rat \<Rightarrow> nat \<Rightarrow> rat" where
  "accumulate a d k = ((\<lambda>x. fadd x d) ^^ k) a"

text \<open>
  The states an analyzer goes through: it starts as the constructor leaves it, and changes
  by \<^verbatim>\<open>append_audio\<close>, by \<^verbatim>\<open>analyze_end_of_turn\<close> and by the base class setting the
  sample rate.
\<close>

inductive reachable :: "BaseSmartTurn \<Rightarrow> bool" where
  init: "reachable (BaseSmartTurn_init rate p)"
| set_sample_rate: "reachable s \<Longrightarrow> reachable (s\<lparr>sample_rate := rate\<rparr>)"
| append: "reachable s \<Longrightarrow> append_audio s clk buffer is_speech = Inr (d, s') \<Longrightarrow> reachable s'"
| analyze: "reachable s \<Longrightarrow> analyze_end_of_turn s predict_endpoint = Inr (d, s', calls)
             \<Longrightarrow> reachable s'"

text \<open>A sample as \<^verbatim>\<open>append_audio\<close> normalises it: a 16-bit signed integer over 32768.\<close>

definition normalised_sample :: "rat \<Rightarrow> bool" where
  "normalised_sample x = (\<exists>w :: int16. x = rat_of_int (sint w) / 32768)"

section \<open>Frames pushed by the services\<close>

text \<open>
  The frames the two services of these sources construct (\<^verbatim>\<open>pipecat.frames.frames\<close> is
  outside the sources; the constructors carry the arguments the services pass).
\<close>

datatype Frame =
    ErrorFrame string
  | TTSStartedFrame
  | TTSStoppedFrame
  | TTSAudioRawFrame "byte list" int int

text \<open>\<^verbatim>\<open>str(n)\<close> for an integer, as the f-strings of the services format a status.\<close>

function str_nat :: "nat \<Rightarrow> string" where
  "str_nat n =
     (if n < 10 then [''0123456789'' ! n]
      else str_nat (n div 10) @ [''0123456789'' ! (n mod 10)])"
  by pat_completeness auto
termination
  by (relation "measure id") auto

definition str_int :: "int \<Rightarrow> string" where
  "str_int i = (if i < 0 then CHR ''-'' # str_nat (nat (- i)) else str_nat (nat i))"

section \<open>The Sarvam speech-to-text service (pipecat/services/sarvam/stt.py)\<close>

text \<open>
  The members of the \<^verbatim>\<open>Language\<close> enum that the Sarvam service names. The enum is
  declared outside the sources; every other member is \<open>OtherLanguage\<close> with the member's
  value.
\<close>

datatype Language =
    BN_IN | GU_IN | HI_IN | KN_IN | ML_IN | MR_IN | TA_IN | TE_IN | PA_IN | OR_IN
  | EN_US | EN_IN | AS_IN
  | OtherLanguage string

definition SARVAM_LANGUAGES :: "(Language \<times> string) list" where
  "SARVAM_LANGUAGES =
     [(BN_IN, ''bn-IN''),
      (GU_IN, ''gu-IN''),
      (HI_IN, ''hi-IN''),
      (KN_IN, ''kn-IN''),
      (ML_IN, ''ml-IN''),
      (MR_IN, ''mr-IN''),
      (TA_IN, ''ta-IN''),
      (TE_IN, ''te-IN''),
      (PA_IN, ''pa-IN''),
      (OR_IN, ''od-IN''),
      (EN_US, ''en-US''),
      (EN_IN, ''en-IN''),
      (AS_IN, ''as-IN'')]"

text \<open>\<^verbatim>\<open>SARVAM_LANGUAGES.get(language, "hi-IN")\<close>\<close>

definition language_to_sarvam_language :: "Language \<Rightarrow> string" where
  "language_to_sarvam_language language =
     (case map_of SARVAM_LANGUAGES language of
        Some code \<Rightarrow> code
      | None \<Rightarrow> ''hi-IN'')"

text \<open>The dictionary \<^verbatim>\<open>mapping\<close> of \<^verbatim>\<open>_map_language_code_to_enum\<close>.\<close>

definition language_code_mapping :: "(string \<times> Language) list" where
  "language_code_mapping =
     [(''bn-IN'', BN_IN),
      (''gu-IN'', GU_IN),
      (''hi-IN'', HI_IN),
      (''kn-IN'', KN_IN),
      (''ml-IN'', ML_IN),
      (''mr-IN'', MR_IN),
      (''ta-IN'', TA_IN),
      (''te-IN'', TE_IN),
      (''pa-IN'', PA_IN),
      (''od-IN'', OR_IN),
      (''en-US'', EN_US),
      (''en-IN'', EN_IN),
      (''as-IN'', AS_IN)]"

definition map_language_code_to_enum :: "string \<Rightarrow> Language" where
  "map_language_code_to_enum language_code =
     (case map_of language_code_mapping language_code of
        Some language \<Rightarrow> language
      | None \<Rightarrow> HI_IN)"

text \<open>The supported set: the keys of the two tables.\<close>

definition supported_languages :: "Language list" where
  "supported_languages = map fst SARVAM_LANGUAGES"

definition supported_codes :: "string list" where
  "supported_codes = map fst language_code_mapping"

text \<open>\<^verbatim>\<open>str.lower\<close> on the ASCII letters, and the substring test \<^verbatim>\<open>needle in s\<close>.\<close>

definition lower_char :: "char \<Rightarrow> char" where
  "lower_char c =
     (let n = (of_char c :: nat) in if 65 \<le> n \<and> n \<le> 90 then char_of (n + 32) else c)"

definition lower :: "string \<Rightarrow> string" where
  "lower s = map lower_char s"

fun starts_with :: "string \<Rightarrow> string \<Rightarrow> bool" where
  "starts_with [] s = True"
| "starts_with (p # ps) [] = False"
| "starts_with (p # ps) (c # cs) = (p = c \<and> starts_with ps cs)"

fun str_contains :: "string \<Rightarrow> string \<Rightarrow> bool" where
  "str_contains needle [] = (needle = [])"
| "str_contains needle (c # cs) = (starts_with needle (c # cs) \<or> str_contains needle cs)"

text \<open>
  The state of \<^verbatim>\<open>SarvamSTTService\<close> that \<^verbatim>\<open>run_stt\<close> reads: the model name, the sample
  rate of the base class and whether \<^verbatim>\<open>_socket_client\<close> is set. The socket client is an
  external collaborator: \<open>socket\<close> maps a request to what the call does. It returns, or it
  raises an exception of class \<^verbatim>\<open>Exception\<close> with a text, or it raises one that is only a
  \<^verbatim>\<open>BaseException\<close> (\<^verbatim>\<open>asyncio.CancelledError\<close> when the task is cancelled), which
  \<^verbatim>\<open>except Exception\<close> does not catch. \<^verbatim>\<open>base64.b64encode\<close> is a parameter.
\<close>

record SarvamSTTService =
  stt_model :: string
  stt_sample_rate :: int
  socket_client :: bool

datatype stt_request =
    Transcribe string string int
  | Translate string string int

datatype send_outcome =
    Returns
  | RaisesException string
  | RaisesBaseException string

text \<open>
  What a run of the generator \<^verbatim>\<open>run_stt\<close> does: the values it yields, the frames it
  pushes with \<^verbatim>\<open>push_error\<close>, the requests it sends, and the exception that leaves it.
\<close>

record run_stt_result =
  yielded :: "Frame option list"
  pushed :: "Frame list"
  requests :: "stt_request list"
  propagated :: "string option"

definition run_stt ::
    "SarvamSTTService \<Rightarrow> (byte list \<Rightarrow> string) \<Rightarrow> (stt_request \<Rightarrow> send_outcome)
       \<Rightarrow> byte list \<Rightarrow> run_stt_result" where
  "run_stt self b64encode socket audio =
     (if \<not> socket_client self then
        \<lparr>yielded = [None], pushed = [], requests = [], propagated = None\<rparr>
      else
        let audio_base64 = b64encode audio;
            request =
              (if str_contains ''saarika'' (lower (stt_model self))
               then Transcribe audio_base64 ''audio/wav'' (stt_sample_rate self)
               else Translate audio_base64 ''audio/wav'' (stt_sample_rate self))
        in (case socket request of
              Returns \<Rightarrow>
                \<lparr>yielded = [None], pushed = [], requests = [request], propagated = None\<rparr>
            | RaisesException e \<Rightarrow>
                \<lparr>yielded = [None],
                 pushed = [ErrorFrame (''Failed to send audio: '' @ e)],
                 requests = [request], propagated = None\<rparr>
            | RaisesBaseException e \<Rightarrow>
                \<lparr>yielded = [], pushed = [], requests = [request], propagated = Some e\<rparr>))"

section \<open>The XTTS text-to-speech service (pipecat/services/xtts/tts.py)\<close>

text \<open>
  The state \<^verbatim>\<open>run_tts\<close> reads. The studio speakers are the dictionary fetched at start
  (\<open>None\<close> before that), from a voice to its embeddings, themselves a dictionary.
\<close>

record XTTSService =
  settings_language :: "string option"
  settings_base_url :: string
  voice_id :: string
  studio_speakers :: "(string \<times> (string \<times> string) list) list option"
  tts_sample_rate :: int

record tts_payload =
  payload_text :: string
  payload_language :: "string option"
  payload_speaker_embedding :: string
  payload_gpt_cond_latent :: string
  payload_add_wav_header :: bool
  payload_stream_chunk_size :: int

text \<open>
  What \<^verbatim>\<open>aiohttp_session.post\<close> does: it raises, or it gives a response with a status,
  a body text, the chunks of the body that \<^verbatim>\<open>iter_chunked\<close> delivers, and the exception
  that ends the stream of chunks when the connection fails under way.
\<close>

datatype http_outcome =
    Raises string
  | Response int string "byte list list" "string option"

datatype service_exception = MissingKey string | RequestFailed string | StreamFailed string

text \<open>
  What a run of the generator \<^verbatim>\<open>run_tts\<close> does: the frames it yields, and the exception
  that leaves it.
\<close>

record run_tts_result =
  tts_yielded :: "Frame list"
  tts_raised :: "service_exception option"

text \<open>
  The inner loop: while the buffer holds at least 48000 bytes, resample the first 48000
  and yield them as a frame.
\<close>

function drain_buffer ::
    "(byte list \<Rightarrow> int \<Rightarrow> int \<Rightarrow> byte list) \<Rightarrow> int \<Rightarrow> byte list \<Rightarrow> Frame list \<times> byte list" where
  "drain_buffer resample rate buffer =
     (if length buffer \<ge> 48000 then
        let process_data = take 48000 buffer;
            frame = TTSAudioRawFrame (resample process_data 24000 rate) rate 1;
            (frames, rest) = drain_buffer resample rate (drop 48000 buffer)
        in (frame # frames, rest)
      else ([], buffer))"
  by pat_completeness auto
termination
  by (relation "measure (\<lambda>(resample, rate, buffer). length buffer)") auto

text \<open>The loop over the chunks of the response body; empty chunks are skipped.\<close>

fun read_chunks ::
    "(byte list \<Rightarrow> int \<Rightarrow> int \<Rightarrow> byte list) \<Rightarrow> int \<Rightarrow> byte list \<Rightarrow> byte list list
       \<Rightarrow> Frame list \<times> byte list" where
  "read_chunks resample rate buffer [] = ([], buffer)"
| "read_chunks resample rate buffer (chunk # chunks) =
     (if length chunk > 0 then
        let (frames, buffer') = drain_buffer resample rate (buffer @ chunk);
            (frames', buffer'') = read_chunks resample rate buffer' chunks
        in (frames @ frames', buffer'')
      else read_chunks resample rate buffer chunks)"

text \<open>
  \<^verbatim>\<open>run_tts\<close>. A missing dictionary key, an exception of \<^verbatim>\<open>post\<close> and a failure of
  the stream are not caught in the source: they leave the generator after the frames
  yielded so far.
\<close>

definition run_tts ::
    "XTTSService \<Rightarrow> (string \<Rightarrow> tts_payload \<Rightarrow> http_outcome)
       \<Rightarrow> (byte list \<Rightarrow> int \<Rightarrow> int \<Rightarrow> byte list) \<Rightarrow> string \<Rightarrow> run_tts_result" where
  "run_tts self post resample text =
     (case studio_speakers self of
        None \<Rightarrow> \<lparr>tts_yielded = [], tts_raised = None\<rparr>
      | Some speakers \<Rightarrow>
          if speakers = [] then \<lparr>tts_yielded = [], tts_raised = None\<rparr>
          else
            (case map_of speakers (voice_id self) of
               None \<Rightarrow> \<lparr>tts_yielded = [], tts_raised = Some (MissingKey (voice_id self))\<rparr>
             | Some embeddings \<Rightarrow>
                 let url = settings_base_url self @ ''/tts_stream'' in
                 (case map_of embeddings ''speaker_embedding'' of
                    None \<Rightarrow>
                      \<lparr>tts_yielded = [], tts_raised = Some (MissingKey ''speaker_embedding'')\<rparr>
                  | Some speaker_embedding \<Rightarrow>
                      (case map_of embeddings ''gpt_cond_latent'' of
                         None \<Rightarrow>
                           \<lparr>tts_yielded = [], tts_raised = Some (MissingKey ''gpt_cond_latent'')\<rparr>
                       | Some gpt_cond_latent \<Rightarrow>
                           let payload =
                                 \<lparr>payload_text =
                                    filter (\<lambda>c. c \<noteq> CHR ''*'') (filter (\<lambda>c. c \<noteq> CHR ''.'') text),
                                  payload_language = settings_language self,
                                  payload_speaker_embedding = speaker_embedding,
                                  payload_gpt_cond_latent = gpt_cond_latent,
                                  payload_add_wav_header = False,
                                  payload_stream_chunk_size = 20\<rparr>
                           in (case post url payload of
                                 Raises e \<Rightarrow>
                                   \<lparr>tts_yielded = [], tts_raised = Some (RequestFailed e)\<rparr>
                               | Response status body chunks stream_error \<Rightarrow>
                                   if status \<noteq> 200 then
                                     \<lparr>tts_yielded =
                                        [ErrorFrame
                                           (''Error getting audio (status: '' @ str_int status
                                              @ '', error: '' @ body @ '')'')],
                                      tts_raised = None\<rparr>
                                   else
                                     let (frames, buffer) =
                                           read_chunks resample (tts_sample_rate self) [] chunks
                                     in (case stream_error of
                                           Some e \<Rightarrow>
                                             \<lparr>tts_yielded = [TTSStartedFrame] @ frames,
                                              tts_raised = Some (StreamFailed e)\<rparr>
                                         | None \<Rightarrow>
                                             \<lparr>tts_yielded =
                                                [TTSStartedFrame] @ frames
                                                @ (if length buffer > 0
                                                   then [TTSAudioRawFrame
                                                           (resample buffer 24000
                                                              (tts_sample_rate self))
                                                           (tts_sample_rate self) 1]
                                                   else [])
                                                @ [TTSStoppedFrame],
                                              tts_raised = None\<rparr>))))))"

section \<open>Properties of the float model\<close>

text \<open>
  An integer below \<open>2 ^ 53\<close> in magnitude is a binary64 number: rounding leaves it as it
  is, so float arithmetic on such integers with such a result is exact.
\<close>

lemma round_half_even_of_int: "round_half_even (rat_of_int z) = z"
  by (simp add: round_half_even_def)

lemma round_double_of_int:
  assumes "\<bar>n\<bar> < 2 ^ 53"
  shows "round_double (rat_of_int n) = rat_of_int n"
proof (cases "n = 0")
  case True
  then show ?thesis by (simp add: round_double_def)
next
  case False
  define a where "a = \<bar>n\<bar>"
  have a: "0 < a" "a < 2 ^ 53" using False assms by (simp_all add: a_def)
  have abs: "\<bar>rat_of_int n\<bar> = rat_of_int a" by (simp add: a_def)
  have one: "1 \<le> rat_of_int a" using a(1) by simp
  define e where "e = bitlen a - 1"
  have fe: "float_exponent (rat_of_int a) = e"
    using one by (simp add: float_exponent_def e_def)
  have "bitlen a \<le> 53" using a(2) by (simp add: bitlen_le_iff_power)
  moreover have "1 \<le> bitlen a" using a(1) bitlen_eq_zero_iff[of a] bitlen_nonneg[of a] by linarith
  ultimately have e: "0 \<le> e" "e \<le> 52" by (simp_all add: e_def)
  define k where "k = nat (52 - e)"
  have q: "max e (- 1022) - 52 = - int k" using e by (simp add: k_def)
  have pw: "(2::rat) powi (- int k) = 1 / 2 ^ k"
    by (simp add: power_int_minus_divide)
  have scaled: "rat_of_int a / 2 powi (- int k) = rat_of_int (a * 2 ^ k)"
    by (simp add: pw)
  have m: "round_half_even (rat_of_int a / 2 powi (- int k)) = a * 2 ^ k"
    unfolding scaled by (rule round_half_even_of_int)
  have nz: "rat_of_int n \<noteq> 0" using False by simp
  have "round_double (rat_of_int n) = sgn (rat_of_int n) * rat_of_int (a * 2 ^ k) * 2 powi (- int k)"
    unfolding round_double_def Let_def if_not_P[OF nz] abs fe q m ..
  also have "\<dots> = sgn (rat_of_int n) * rat_of_int a" by (simp add: pw)
  also have "\<dots> = rat_of_int n"
    unfolding abs[symmetric] by (simp add: sgn_mult_abs)
  finally show ?thesis .
qed

lemma round_double_numeral [simp]:
  "numeral k < (2::int) ^ 53 \<Longrightarrow> round_double (numeral k) = numeral k"
  using round_double_of_int[of "numeral k"] by simp

lemma round_double_neg_numeral [simp]:
  "numeral k < (2::int) ^ 53 \<Longrightarrow> round_double (- numeral k) = - numeral k"
  using round_double_of_int[of "- numeral k"] by simp

lemma round_double_0 [simp]: "round_double 0 = 0"
  by (simp add: round_double_def)

lemma round_double_1 [simp]: "round_double 1 = 1"
  using round_double_of_int[of 1] by simp

lemma round_double_of_nat:
  "n < 2 ^ 53 \<Longrightarrow> round_double (rat_of_nat n) = rat_of_nat n"
  using round_double_of_int[of "int n"] by (simp add: nat_less_iff flip: of_nat_power)

section \<open>Properties of the turn analyzer\<close>

lemma accumulate_0 [simp]: "accumulate a d 0 = a"
  by (simp add: accumulate_def)

lemma accumulate_Suc: "accumulate a d (Suc k) = accumulate (fadd a d) d k"
  using funpow_swap1[of "\<lambda>x. fadd x d" k a] by (simp add: accumulate_def)

lemma accumulate_whole:
  "a + m * k < 2 ^ 53 \<Longrightarrow>
     accumulate (rat_of_nat a) (rat_of_nat m) k = rat_of_nat (a + m * k)"
proof (induction k arbitrary: a)
  case 0
  then show ?case by simp
next
  case (Suc k)
  have lt: "a + m < 2 ^ 53"
    by (rule le_less_trans[OF _ Suc.prems]) simp
  have "fadd (rat_of_nat a) (rat_of_nat m) = rat_of_nat (a + m)"
    using round_double_of_nat[OF lt] by (simp add: fadd_def)
  moreover have "accumulate (rat_of_nat (a + m)) (rat_of_nat m) k = rat_of_nat (a + m + m * k)"
    by (rule Suc.IH) (use Suc.prems in \<open>simp add: algebra_simps\<close>)
  ultimately show ?case by (simp add: accumulate_Suc algebra_simps)
qed

lemma frombuffer_int16_length:
  "frombuffer_int16 b = Inr ws \<Longrightarrow> length b = 2 * length ws"
  by (induction b arbitrary: ws rule: frombuffer_int16.induct) (auto split: sum.splits)

lemma frombuffer_int16_even:
  "even (length b) \<Longrightarrow> \<exists>ws. frombuffer_int16 b = Inr ws \<and> length ws = length b div 2"
  by (induction b rule: frombuffer_int16.induct) auto

lemma frombuffer_int16_replicate:
  "frombuffer_int16 (replicate (2 * n) x) = Inr (replicate n (word_cat x x))"
  by (induction n) auto

lemma append_audio_speech:
  assumes "frombuffer_int16 b = Inr ws"
  shows "append_audio s clk b True =
     Inr (INCOMPLETE,
          s\<lparr>audio_buffer := audio_buffer s @ [(clk 0, to_float32 ws)],
            silence_ms := 0, speech_triggered := True,
            speech_start_time :=
              (case speech_start_time s of None \<Rightarrow> Some (clk 1) | Some t \<Rightarrow> Some t)\<rparr>)"
  using assms by (simp add: append_audio_def Let_def)

lemma append_audio_silence_triggered:
  assumes "frombuffer_int16 b = Inr ws" "speech_triggered s"
    and "int_true_div (sample_rate s) 1000 \<noteq> 0"
  shows "append_audio s clk b False =
     (if stop_ms s \<le> fadd (silence_ms s) (chunk_ms (sample_rate s) b)
      then Inr (COMPLETE, clear s COMPLETE)
      else Inr (INCOMPLETE,
                s\<lparr>audio_buffer := audio_buffer s @ [(clk 0, to_float32 ws)],
                  silence_ms := fadd (silence_ms s) (chunk_ms (sample_rate s) b)\<rparr>))"
  using assms frombuffer_int16_length[OF assms(1)]
  by (simp add: append_audio_def Let_def chunk_ms_def clear_def)

lemma silence_run_incomplete:
  assumes "speech_triggered s"
    and "list_all (silence_chunk (sample_rate s) d) cs"
    and "\<forall>k. 1 \<le> k \<and> k \<le> length cs \<longrightarrow> accumulate (silence_ms s) d k < stop_ms s"
  shows "\<exists>buf. append_audio_all s cs =
            Inr (replicate (length cs) INCOMPLETE,
                 s\<lparr>audio_buffer := buf, silence_ms := accumulate (silence_ms s) d (length cs)\<rparr>)"
  using assms
proof (induction cs arbitrary: s)
  case Nil
  have "s = s\<lparr>audio_buffer := audio_buffer s, silence_ms := silence_ms s\<rparr>" by simp
  then have "append_audio_all s [] =
      Inr (replicate (length []) INCOMPLETE,
           s\<lparr>audio_buffer := audio_buffer s, silence_ms := accumulate (silence_ms s) d (length [])\<rparr>)"
    by simp
  then show ?case by blast
next
  case (Cons c cs)
  obtain clk b sp where c: "c = (clk, b, sp)" by (cases c) auto
  from Cons.prems(2) have rest: "list_all (silence_chunk (sample_rate s) d) cs"
    and hd: "silence_chunk (sample_rate s) d c" by simp_all
  from hd c have sp: "\<not> sp" and ev: "even (length b)"
    and nz: "int_true_div (sample_rate s) 1000 \<noteq> 0"
    and dur: "chunk_ms (sample_rate s) b = d"
    by (simp_all add: silence_chunk_def)
  from ev obtain ws where ws: "frombuffer_int16 b = Inr ws"
    using frombuffer_int16_even by blast
  define s1 where "s1 = s\<lparr>audio_buffer := audio_buffer s @ [(clk 0, to_float32 ws)],
                  silence_ms := fadd (silence_ms s) d\<rparr>"
  have "accumulate (silence_ms s) d 1 < stop_ms s"
    using Cons.prems(3) by (metis le_refl length_Cons One_nat_def Suc_le_mono zero_le)
  then have lt: "fadd (silence_ms s) d < stop_ms s"
    by (simp add: accumulate_def)
  have step: "append_audio s clk b False = Inr (INCOMPLETE, s1)"
    using append_audio_silence_triggered[OF ws Cons.prems(1) nz, of clk] lt dur
    by (simp add: s1_def)
  have s1: "speech_triggered s1" "sample_rate s1 = sample_rate s" "stop_ms s1 = stop_ms s"
    "silence_ms s1 = fadd (silence_ms s) d"
    using Cons.prems(1) by (simp_all add: s1_def)
  have "\<exists>buf. append_audio_all s1 cs =
            Inr (replicate (length cs) INCOMPLETE,
                 s1\<lparr>audio_buffer := buf, silence_ms := accumulate (silence_ms s1) d (length cs)\<rparr>)"
  proof (rule Cons.IH)
    show "speech_triggered s1" by (rule s1)
    show "list_all (silence_chunk (sample_rate s1) d) cs" using rest s1 by simp
    show "\<forall>k. 1 \<le> k \<and> k \<le> length cs \<longrightarrow> accumulate (silence_ms s1) d k < stop_ms s1"
    proof (intro allI impI)
      fix k assume "1 \<le> k \<and> k \<le> length cs"
      then have "accumulate (silence_ms s) d (Suc k) < stop_ms s"
        using Cons.prems(3) by simp
      then show "accumulate (silence_ms s1) d k < stop_ms s1"
        using s1 by (simp add: accumulate_Suc)
    qed
  qed
  then obtain buf where run: "append_audio_all s1 cs =
            Inr (replicate (length cs) INCOMPLETE,
                 s1\<lparr>audio_buffer := buf, silence_ms := accumulate (silence_ms s1) d (length cs)\<rparr>)"
    by blast
  have "s1\<lparr>audio_buffer := buf, silence_ms := accumulate (silence_ms s1) d (length cs)\<rparr>
      = s\<lparr>audio_buffer := buf, silence_ms := accumulate (silence_ms s) d (length (c # cs))\<rparr>"
    by (simp add: s1_def accumulate_Suc)
  then have "append_audio_all s (c # cs) =
      Inr (replicate (length (c # cs)) INCOMPLETE,
           s\<lparr>audio_buffer := buf, silence_ms := accumulate (silence_ms s) d (length (c # cs))\<rparr>)"
    using step run sp c by simp
  then show ?case by blast
qed

lemma append_audio_all_append:
  "append_audio_all s (xs @ ys) =
     (case append_audio_all s xs of
        Inl e \<Rightarrow> Inl e
      | Inr (ds, s') \<Rightarrow>
          (case append_audio_all s' ys of
             Inl e \<Rightarrow> Inl e
           | Inr (ds', s'') \<Rightarrow> Inr (ds @ ds', s'')))"
  by (induction xs arbitrary: s) (auto split: sum.splits)

lemma silence_run_complete:
  assumes trig: "speech_triggered s"
    and cs: "list_all (silence_chunk (sample_rate s) d) cs" and c: "silence_chunk (sample_rate s) d c"
    and below: "\<forall>k. 1 \<le> k \<and> k \<le> length cs \<longrightarrow> accumulate (silence_ms s) d k < stop_ms s"
    and reach: "stop_ms s \<le> accumulate (silence_ms s) d (Suc (length cs))"
  shows "append_audio_all s (cs @ [c]) =
            Inr (replicate (length cs) INCOMPLETE @ [COMPLETE], clear s COMPLETE)"
proof -
  obtain buf where run: "append_audio_all s cs = Inr (replicate (length cs) INCOMPLETE,
      s\<lparr>audio_buffer := buf, silence_ms := accumulate (silence_ms s) d (length cs)\<rparr>)"
    using silence_run_incomplete[OF trig cs below] by blast
  define s1 where "s1 = s\<lparr>audio_buffer := buf, silence_ms := accumulate (silence_ms s) d (length cs)\<rparr>"
  have s1: "speech_triggered s1" "sample_rate s1 = sample_rate s" "stop_ms s1 = stop_ms s"
    "silence_ms s1 = accumulate (silence_ms s) d (length cs)"
    using trig by (simp_all add: s1_def)
  obtain clk b sp where ceq: "c = (clk, b, sp)" by (cases c) auto
  from c ceq have sp: "\<not> sp" and ev: "even (length b)"
    and nz: "int_true_div (sample_rate s) 1000 \<noteq> 0"
    and dur: "chunk_ms (sample_rate s) b = d"
    by (simp_all add: silence_chunk_def)
  from ev obtain ws where ws: "frombuffer_int16 b = Inr ws"
    using frombuffer_int16_even by blast
  have nz1: "int_true_div (sample_rate s1) 1000 \<noteq> 0" using s1 nz by simp
  have acc: "accumulate (silence_ms s) d (Suc (length cs))
      = fadd (accumulate (silence_ms s) d (length cs)) d"
    by (simp add: accumulate_def)
  have "stop_ms s1 \<le> fadd (silence_ms s1) (chunk_ms (sample_rate s1) b)"
    using reach s1 dur acc by simp
  then have "append_audio s1 clk b False = Inr (COMPLETE, clear s1 COMPLETE)"
    using append_audio_silence_triggered[OF ws s1(1) nz1, of clk] by simp
  moreover have "clear s1 COMPLETE = clear s COMPLETE"
    by (simp add: s1_def clear_def)
  ultimately show ?thesis
    using run sp ceq by (simp add: append_audio_all_append s1_def)
qed

lemma chunk_ms_whole_khz:
  assumes "0 < r" and "100 * r < 2 ^ 53" and "length buffer = 2 * (100 * r)"
  shows "int_true_div (1000 * int r) 1000 = rat_of_nat r"
    and "chunk_ms (1000 * int r) buffer = 100"
proof -
  have r: "r < 2 ^ 53" using assms(2) by simp
  show d: "int_true_div (1000 * int r) 1000 = rat_of_nat r"
    using round_double_of_nat[OF r] by (simp add: int_true_div_def)
  have n: "float_of_int (int (length buffer div 2)) = rat_of_nat (100 * r)"
    using round_double_of_nat[OF assms(2)] assms(3) by (simp add: float_of_int_def)
  show "chunk_ms (1000 * int r) buffer = 100"
    unfolding chunk_ms_def n d using assms(1) by (simp add: fdiv_def)
qed

lemma silence_chunk_16k: "silence_chunk 16000 100 (clk, replicate 3200 x, False)"
  using chunk_ms_whole_khz[of 16 "replicate 3200 x"]
  by (simp add: silence_chunk_def)

lemma speech_then_silence_run:
  assumes "even (length speech_buffer)"
    and "list_all (silence_chunk (sample_rate s) d) cs" and "silence_chunk (sample_rate s) d c"
    and "\<forall>k. 1 \<le> k \<and> k \<le> length cs \<longrightarrow> accumulate 0 d k < stop_ms s"
    and "stop_ms s \<le> accumulate 0 d (Suc (length cs))"
  shows "append_audio_all s ((clk, speech_buffer, True) # cs @ [c]) =
            Inr (INCOMPLETE # replicate (length cs) INCOMPLETE @ [COMPLETE], clear s COMPLETE)"
proof -
  obtain ws where ws: "frombuffer_int16 speech_buffer = Inr ws"
    using assms(1) frombuffer_int16_even by blast
  define s1 where "s1 = s\<lparr>audio_buffer := audio_buffer s @ [(clk 0, to_float32 ws)],
            silence_ms := 0, speech_triggered := True,
            speech_start_time :=
              (case speech_start_time s of None \<Rightarrow> Some (clk 1) | Some t \<Rightarrow> Some t)\<rparr>"
  have first: "append_audio s clk speech_buffer True = Inr (INCOMPLETE, s1)"
    using append_audio_speech[OF ws] by (simp add: s1_def)
  have s1: "speech_triggered s1" "sample_rate s1 = sample_rate s" "stop_ms s1 = stop_ms s"
    "silence_ms s1 = 0"
    by (simp_all add: s1_def)
  have cl: "clear s1 COMPLETE = clear s COMPLETE" by (simp add: s1_def clear_def)
  have "append_audio_all s1 (cs @ [c]) =
            Inr (replicate (length cs) INCOMPLETE @ [COMPLETE], clear s1 COMPLETE)"
  proof (rule silence_run_complete[where d = d])
    show "speech_triggered s1" by (rule s1)
    show "list_all (silence_chunk (sample_rate s1) d) cs" using s1 assms(2) by simp
    show "silence_chunk (sample_rate s1) d c" using s1 assms(3) by simp
    show "\<forall>k. 1 \<le> k \<and> k \<le> length cs \<longrightarrow> accumulate (silence_ms s1) d k < stop_ms s1"
      using s1 assms(4) by simp
    show "stop_ms s1 \<le> accumulate (silence_ms s1) d (Suc (length cs))"
      using s1 assms(5) by simp
  qed
  then show ?thesis using first cl by simp
qed

text \<open>
  Claim C1, as the code has it. With \<open>stop_secs = 3\<close>, one speech chunk followed by thirty
  silence chunks, for each of which \<^verbatim>\<open>append_audio\<close> computes the duration 100.0 ms:
  every call before the thirtieth silence chunk returns Incomplete, and the thirtieth, where
  the accumulated silence first reaches 3000 ms, returns Complete and leaves the state
  cleared. The run raises nothing. The computed duration is 100.0 at every sample rate that
  is a whole number of kHz, for chunks of a tenth of the rate in samples.
\<close>

theorem silence_completion:
  assumes "stop_secs (params s) = 3" and "stop_ms s = fmul (stop_secs (params s)) 1000"
    and "even (length speech_buffer)"
    and "length silences = 30"
    and "list_all (silence_chunk (sample_rate s) 100) silences"
  shows "append_audio_all s ((clk, speech_buffer, True) # silences) =
            Inr (INCOMPLETE # replicate 29 INCOMPLETE @ [COMPLETE], clear s COMPLETE)"
proof -
  have stop: "stop_ms s = 3000" using assms(1,2) by (simp add: fmul_def)
  have ne: "silences \<noteq> []" using assms(4) by auto
  then have split: "silences = butlast silences @ [last silences]" by simp
  have len: "length (butlast silences) = 29" using assms(4) by simp
  have all: "list_all (silence_chunk (sample_rate s) 100) (butlast silences)"
    using assms(5) by (auto simp: list_all_iff dest: in_set_butlastD)
  have lst: "silence_chunk (sample_rate s) 100 (last silences)"
    using assms(5) ne by (simp add: list_all_iff)
  have acc: "accumulate 0 100 k = rat_of_nat (100 * k)" if "k \<le> 30" for k
    using accumulate_whole[of 0 100 k] that
    by (simp add: order.strict_trans1[of "100 * k" 3000])
  have "append_audio_all s ((clk, speech_buffer, True) # butlast silences @ [last silences]) =
      Inr (INCOMPLETE # replicate (length (butlast silences)) INCOMPLETE @ [COMPLETE],
           clear s COMPLETE)"
  proof (rule speech_then_silence_run[where d = 100])
    show "even (length speech_buffer)" by (rule assms(3))
    show "list_all (silence_chunk (sample_rate s) 100) (butlast silences)" by (rule all)
    show "silence_chunk (sample_rate s) 100 (last silences)" by (rule lst)
    show "\<forall>k. 1 \<le> k \<and> k \<le> length (butlast silences) \<longrightarrow> accumulate 0 100 k < stop_ms s"
      using stop len acc by simp
    show "stop_ms s \<le> accumulate 0 100 (Suc (length (butlast silences)))"
      using stop len acc[of 30] by simp
  qed
  then show ?thesis using len split by simp
qed

theorem silence_completion_witness:
  "append_audio_all (BaseSmartTurn_init 16000 default_SmartTurnParams)
      ((\<lambda>k. 0, replicate 3200 0, True) # replicate 30 (\<lambda>k. 0, replicate 3200 0, False)) =
    Inr (INCOMPLETE # replicate 29 INCOMPLETE @ [COMPLETE],
         clear (BaseSmartTurn_init 16000 default_SmartTurnParams) COMPLETE)"
  using silence_completion[of "BaseSmartTurn_init 16000 default_SmartTurnParams"
      "replicate 3200 0" "replicate 30 (\<lambda>k. 0, replicate 3200 0, False)" "\<lambda>k. 0"]
  by (simp add: BaseSmartTurn_init_def default_SmartTurnParams_def STOP_SECS_def
      silence_chunk_16k list_all_length)

text \<open>
  The claim C1 as stated fails where the float quotient falls short of 100: at 70 Hz a
  chunk of 7 samples lasts 100 ms, \<^verbatim>\<open>append_audio\<close> computes 99.99999999999999 for it,
  thirty such chunks stay below 3000.0, and Complete comes with the 31st silence chunk.
\<close>

lemma accumulate_numeral:
  "accumulate a d (numeral n) = accumulate (fadd a d) d (pred_numeral n)"
  by (simp add: numeral_eq_Suc accumulate_Suc)

lemma accumulate_Suc_0: "accumulate a d (Suc 0) = fadd a d"
  by (simp add: accumulate_def)

lemma chunk_ms_70: "chunk_ms 70 (replicate 14 x) = 7036874417766399 / 70368744177664"
  unfolding chunk_ms_def length_replicate by code_simp

lemma divisor_70: "int_true_div 70 1000 = 1261007895663739 / 18014398509481984"
  by code_simp

lemma accumulate_70_steps:
  "fadd (0) (7036874417766399 / 70368744177664) = 7036874417766399 / 70368744177664"
  "fadd (7036874417766399 / 70368744177664) (7036874417766399 / 70368744177664) = 7036874417766399 / 35184372088832"
  "fadd (7036874417766399 / 35184372088832) (7036874417766399 / 70368744177664) = 5277655813324799 / 17592186044416"
  "fadd (5277655813324799 / 17592186044416) (7036874417766399 / 70368744177664) = 7036874417766399 / 17592186044416"
  "fadd (7036874417766399 / 17592186044416) (7036874417766399 / 70368744177664) = 8796093022207999 / 17592186044416"
  "fadd (8796093022207999 / 17592186044416) (7036874417766399 / 70368744177664) = 5277655813324799 / 8796093022208"
  "fadd (5277655813324799 / 8796093022208) (7036874417766399 / 70368744177664) = 6157265115545599 / 8796093022208"
  "fadd (6157265115545599 / 8796093022208) (7036874417766399 / 70368744177664) = 7036874417766399 / 8796093022208"
  "fadd (7036874417766399 / 8796093022208) (7036874417766399 / 70368744177664) = 7916483719987199 / 8796093022208"
  "fadd (7916483719987199 / 8796093022208) (7036874417766399 / 70368744177664) = 8796093022207999 / 8796093022208"
  "fadd (8796093022207999 / 8796093022208) (7036874417766399 / 70368744177664) = 4837851162214399 / 4398046511104"
  "fadd (4837851162214399 / 4398046511104) (7036874417766399 / 70368744177664) = 5277655813324799 / 4398046511104"
  "fadd (5277655813324799 / 4398046511104) (7036874417766399 / 70368744177664) = 5717460464435199 / 4398046511104"
  "fadd (5717460464435199 / 4398046511104) (7036874417766399 / 70368744177664) = 6157265115545599 / 4398046511104"
  "fadd (6157265115545599 / 4398046511104) (7036874417766399 / 70368744177664) = 6597069766655999 / 4398046511104"
  "fadd (6597069766655999 / 4398046511104) (7036874417766399 / 70368744177664) = 7036874417766399 / 4398046511104"
  "fadd (7036874417766399 / 4398046511104) (7036874417766399 / 70368744177664) = 7476679068876799 / 4398046511104"
  "fadd (7476679068876799 / 4398046511104) (7036874417766399 / 70368744177664) = 7916483719987199 / 4398046511104"
  "fadd (7916483719987199 / 4398046511104) (7036874417766399 / 70368744177664) = 8356288371097599 / 4398046511104"
  "fadd (8356288371097599 / 4398046511104) (7036874417766399 / 70368744177664) = 8796093022207999 / 4398046511104"
  "fadd (8796093022207999 / 4398046511104) (7036874417766399 / 70368744177664) = 4617948836659199 / 2199023255552"
  "fadd (4617948836659199 / 2199023255552) (7036874417766399 / 70368744177664) = 4837851162214399 / 2199023255552"
  "fadd (4837851162214399 / 2199023255552) (7036874417766399 / 70368744177664) = 5057753487769599 / 2199023255552"
  "fadd (5057753487769599 / 2199023255552) (7036874417766399 / 70368744177664) = 5277655813324799 / 2199023255552"
  "fadd (5277655813324799 / 2199023255552) (7036874417766399 / 70368744177664) = 5497558138879999 / 2199023255552"
  "fadd (5497558138879999 / 2199023255552) (7036874417766399 / 70368744177664) = 5717460464435199 / 2199023255552"
  "fadd (5717460464435199 / 2199023255552) (7036874417766399 / 70368744177664) = 5937362789990399 / 2199023255552"
  "fadd (5937362789990399 / 2199023255552) (7036874417766399 / 70368744177664) = 6157265115545599 / 2199023255552"
  "fadd (6157265115545599 / 2199023255552) (7036874417766399 / 70368744177664) = 6377167441100799 / 2199023255552"
  "fadd (6377167441100799 / 2199023255552) (7036874417766399 / 70368744177664) = 6597069766655999 / 2199023255552"
  "fadd (6597069766655999 / 2199023255552) (7036874417766399 / 70368744177664) = 6816972092211199 / 2199023255552"
  by code_simp+

lemma accumulate_70_below:
  "list_all (\<lambda>k. accumulate 0 (7036874417766399 / 70368744177664) k < 3000) [1, 2, 3, 4, 5, 6, 7, 8, 9, 10, 11, 12, 13, 14, 15, 16, 17, 18, 19, 20, 21, 22, 23, 24, 25, 26, 27, 28, 29, 30]"
  by (simp add: accumulate_numeral accumulate_Suc_0 accumulate_70_steps)

lemma accumulate_70_reach: "3000 \<le> accumulate 0 (7036874417766399 / 70368744177664) 31"
  by (simp add: accumulate_numeral accumulate_Suc_0 accumulate_70_steps)

lemma upt_1_31: "[1..<31] = [1, 2, 3, 4, 5, 6, 7, 8, 9, 10, 11, 12, 13, 14, 15, 16, 17, 18, 19, 20, 21, 22, 23, 24, 25, 26, 27, 28, 29, 30]"
  by code_simp

theorem silence_completion_counterexample:
  "append_audio_all (BaseSmartTurn_init 70 default_SmartTurnParams)
      ((\<lambda>k. 0, replicate 14 0, True) # replicate 31 (\<lambda>k. 0, replicate 14 0, False)) =
    Inr (INCOMPLETE # replicate 30 INCOMPLETE @ [COMPLETE],
         clear (BaseSmartTurn_init 70 default_SmartTurnParams) COMPLETE)"
proof -
  let ?s = "BaseSmartTurn_init 70 default_SmartTurnParams"
  let ?c = "(\<lambda>k::nat. 0::rat, replicate 14 (0::byte), False)"
  let ?d = "7036874417766399 / 70368744177664 :: rat"
  have rate: "sample_rate ?s = 70" and stop: "stop_ms ?s = 3000"
    by (simp_all add: BaseSmartTurn_init_def default_SmartTurnParams_def STOP_SECS_def fmul_def)
  have c: "silence_chunk (sample_rate ?s) ?d ?c"
    unfolding rate by (simp add: silence_chunk_def chunk_ms_70 divisor_70)
  have "\<forall>k\<in>set [1..<31]. accumulate 0 ?d k < 3000"
    using accumulate_70_below unfolding upt_1_31 list_all_iff .
  then have below: "\<forall>k. 1 \<le> k \<and> k \<le> length (replicate 30 ?c) \<longrightarrow> accumulate 0 ?d k < stop_ms ?s"
    unfolding stop by simp
  have reach: "stop_ms ?s \<le> accumulate 0 ?d (Suc (length (replicate 30 ?c)))"
    using accumulate_70_reach unfolding stop by simp
  have run: "append_audio_all ?s ((\<lambda>k. 0, replicate 14 0, True) # replicate 30 ?c @ [?c]) =
      Inr (INCOMPLETE # replicate (length (replicate 30 ?c)) INCOMPLETE @ [COMPLETE],
           clear ?s COMPLETE)"
  proof (rule speech_then_silence_run[OF _ _ c below reach])
    show "even (length (replicate 14 (0::byte)))" by simp
    show "list_all (silence_chunk (sample_rate ?s) ?d) (replicate 30 ?c)"
      using c by (simp only: list_all_length length_replicate nth_replicate) simp
  qed
  have "replicate 31 ?c = replicate (Suc 30) ?c"
    by (rule arg_cong[where f = "\<lambda>n. replicate n ?c"]) simp
  also have "\<dots> = replicate 30 ?c @ [?c]"
    by (simp only: replicate_Suc replicate_append_same)
  finally have e: "replicate 31 ?c = replicate 30 ?c @ [?c]" .
  show ?thesis
    unfolding e using run unfolding length_replicate .
qed

lemma append_audio_complete_cleared:
  assumes "append_audio s clk buffer is_speech = Inr (COMPLETE, s')"
  shows "audio_buffer s' = [] \<and> \<not> speech_triggered s' \<and> silence_ms s' = 0
           \<and> speech_start_time s' = None"
  using assms
  by (auto simp: append_audio_def Let_def clear_def split: sum.splits if_splits)

lemma analyze_end_of_turn_state:
  assumes "analyze_end_of_turn s predict_endpoint = Inr (d, s', calls)"
  shows "s' = clear s d"
  using assms
  by (auto simp: analyze_end_of_turn_def USE_ONLY_LAST_VAD_SEGMENT_def split: sum.splits)

text \<open>
  Claim C3. Right after a Complete decision, from the silence timer of \<^verbatim>\<open>append_audio\<close>
  or from \<^verbatim>\<open>analyze_end_of_turn\<close>, the audio buffer is empty, the triggered flag is
  false, the silence accumulator is 0 and the speech start time is unset.
\<close>

theorem post_complete_reset:
  "(append_audio s clk buffer is_speech = Inr (COMPLETE, s') \<longrightarrow>
      audio_buffer s' = [] \<and> \<not> speech_triggered s' \<and> silence_ms s' = 0
        \<and> speech_start_time s' = None) \<and>
   (analyze_end_of_turn t predict_endpoint = Inr (COMPLETE, t', calls) \<longrightarrow>
      audio_buffer t' = [] \<and> \<not> speech_triggered t' \<and> silence_ms t' = 0
        \<and> speech_start_time t' = None)"
proof (intro conjI impI)
  assume a: "append_audio s clk buffer is_speech = Inr (COMPLETE, s')"
  show "audio_buffer s' = []" "\<not> speech_triggered s'" "silence_ms s' = 0"
    "speech_start_time s' = None"
    using append_audio_complete_cleared[OF a] by simp_all
next
  assume b: "analyze_end_of_turn t predict_endpoint = Inr (COMPLETE, t', calls)"
  have "t' = clear t COMPLETE" by (rule analyze_end_of_turn_state[OF b])
  then show "audio_buffer t' = []" "\<not> speech_triggered t'" "silence_ms t' = 0"
    "speech_start_time t' = None"
    by (simp_all add: clear_def)
qed

lemma divisor_16k: "int_true_div 16000 1000 = 16"
  by (simp add: int_true_div_def)

lemma chunk_ms_16k: "chunk_ms 16000 (replicate 3200 x) = 100"
  using chunk_ms_whole_khz(2)[of 16 "replicate 3200 x"] by simp

lemma analyze_default_example:
  "analyze_end_of_turn
      ((BaseSmartTurn_init 16000 default_SmartTurnParams)
         \<lparr>audio_buffer := [(t0, [x])], speech_triggered := True,
           speech_start_time := Some t0\<rparr>)
      predict_endpoint
    = Inr (if prediction (predict_endpoint [x]) = 1 then COMPLETE else INCOMPLETE,
           clear (BaseSmartTurn_init 16000 default_SmartTurnParams)
             (if prediction (predict_endpoint [x]) = 1 then COMPLETE else INCOMPLETE),
           [[x]])"
proof -
  have "fsub t0 (fdiv 0 1000) \<le> t0 \<or> t0 < fsub t0 (fdiv 0 1000)" by linarith
  then show ?thesis
    by (auto simp: analyze_end_of_turn_def process_speech_segment_def BaseSmartTurn_init_def
        default_SmartTurnParams_def MAX_DURATION_SECONDS_def PRE_SPEECH_MS_def py_int_def Let_def
        fmul_def float_of_int_def USE_ONLY_LAST_VAD_SEGMENT_def clear_def)
qed

theorem post_complete_reset_witness:
  "(\<exists>s'. append_audio
      ((BaseSmartTurn_init 16000 default_SmartTurnParams)
         \<lparr>audio_buffer := [(0, [1 / 2])], speech_triggered := True, silence_ms := 2900,
           speech_start_time := Some 0\<rparr>)
      (\<lambda>k. 3) (replicate 3200 0) False = Inr (COMPLETE, s')
      \<and> audio_buffer s' = [] \<and> \<not> speech_triggered s' \<and> silence_ms s' = 0
      \<and> speech_start_time s' = None) \<and>
   (\<exists>t'. analyze_end_of_turn
      ((BaseSmartTurn_init 16000 default_SmartTurnParams)
         \<lparr>audio_buffer := [(0, [1 / 2])], speech_triggered := True,
           speech_start_time := Some 0\<rparr>)
      (\<lambda>seg. \<lparr>prediction = 1, probability = 1\<rparr>) = Inr (COMPLETE, t', [[1 / 2]])
      \<and> audio_buffer t' = [] \<and> \<not> speech_triggered t' \<and> silence_ms t' = 0
      \<and> speech_start_time t' = None)"
proof -
  let ?s = "(BaseSmartTurn_init 16000 default_SmartTurnParams)
         \<lparr>audio_buffer := [(0, [1 / 2])], speech_triggered := True, silence_ms := 2900,
           speech_start_time := Some 0\<rparr>"
  let ?t = "(BaseSmartTurn_init 16000 default_SmartTurnParams)
         \<lparr>audio_buffer := [(0, [1 / 2])], speech_triggered := True,
           speech_start_time := Some 0\<rparr>"
  let ?p = "\<lambda>seg::rat list. \<lparr>prediction = 1, probability = 1\<rparr>"
  have dec: "frombuffer_int16 (replicate 3200 0) = Inr (replicate 1600 (word_cat (0::byte) (0::byte)))"
    using frombuffer_int16_replicate[of 1600 0] by simp
  have "\<exists>s'. append_audio ?s (\<lambda>k. 3) (replicate 3200 0) False = Inr (COMPLETE, s')"
    using append_audio_silence_triggered[OF dec, of ?s "\<lambda>k. 3"]
    by (simp add: BaseSmartTurn_init_def default_SmartTurnParams_def STOP_SECS_def
        chunk_ms_16k divisor_16k fadd_def fmul_def)
  then obtain s' where a: "append_audio ?s (\<lambda>k. 3) (replicate 3200 0) False = Inr (COMPLETE, s')"
    by blast
  have "\<exists>t'. analyze_end_of_turn ?t ?p = Inr (COMPLETE, t', [[1 / 2]])"
    using analyze_default_example[of 0 "1 / 2" ?p] by simp
  then obtain t' where b: "analyze_end_of_turn ?t ?p = Inr (COMPLETE, t', [[1 / 2]])"
    by blast
  from post_complete_reset[of ?s "\<lambda>k. 3" "replicate 3200 0" False s' ?t ?p t' "[[1 / 2]]"] a b
  show ?thesis by blast
qed

lemma process_speech_segment_calls:
  assumes "process_speech_segment s predict_endpoint buf = Inr (d, calls)"
  shows "(calls = [] \<and> d = INCOMPLETE) \<or>
         (\<exists>segment. calls = [segment] \<and> segment \<noteq> []
            \<and> d = (if prediction (predict_endpoint segment) = 1 then COMPLETE else INCOMPLETE))"
  using assms
  by (auto simp: process_speech_segment_def Let_def
      simp del: concat_eq_Nil_conv split: if_splits option.splits)



text \<open>
  Claim C9. With the single-segment retention policy, an Incomplete result of
  \<^verbatim>\<open>analyze_end_of_turn\<close> leaves the buffer empty, the silence accumulator at 0 and the
  speech start time unset, while the triggered flag is true. Silence chunks appended
  afterwards therefore accumulate and the timer returns Complete with no speech in
  between: for chunks for which \<^verbatim>\<open>append_audio\<close> computes a whole number \<open>m\<close> of
  milliseconds (the float sums are then exact), Complete comes with the first chunk at
  which the accumulated silence reaches \<open>stop_ms\<close>.
\<close>

theorem incomplete_keeps_triggered:
  assumes "analyze_end_of_turn s predict_endpoint = Inr (INCOMPLETE, s', calls)"
  shows "audio_buffer s' = [] \<and> silence_ms s' = 0 \<and> speech_start_time s' = None
           \<and> speech_triggered s'
           \<and> (list_all (silence_chunk (sample_rate s) (rat_of_nat m)) cs
                \<and> silence_chunk (sample_rate s) (rat_of_nat m) c
                \<and> m * Suc (length cs) < 2 ^ 53
                \<and> rat_of_nat (m * length cs) < stop_ms s
                \<and> stop_ms s \<le> rat_of_nat (m * Suc (length cs))
              \<longrightarrow> append_audio_all s' (cs @ [c]) =
                     Inr (replicate (length cs) INCOMPLETE @ [COMPLETE], clear s COMPLETE))"
proof -
  have s': "s' = clear s INCOMPLETE" by (rule analyze_end_of_turn_state[OF assms])
  then have fields: "audio_buffer s' = []" "silence_ms s' = 0" "speech_start_time s' = None"
    "speech_triggered s'" "sample_rate s' = sample_rate s" "stop_ms s' = stop_ms s"
    by (simp_all add: clear_def)
  have cl: "clear s' COMPLETE = clear s COMPLETE" by (simp add: s' clear_def)
  have "append_audio_all s' (cs @ [c]) =
           Inr (replicate (length cs) INCOMPLETE @ [COMPLETE], clear s COMPLETE)"
    if h: "list_all (silence_chunk (sample_rate s) (rat_of_nat m)) cs
                \<and> silence_chunk (sample_rate s) (rat_of_nat m) c
                \<and> m * Suc (length cs) < 2 ^ 53
                \<and> rat_of_nat (m * length cs) < stop_ms s
                \<and> stop_ms s \<le> rat_of_nat (m * Suc (length cs))"
  proof -
    have acc: "accumulate 0 (rat_of_nat m) k = rat_of_nat (m * k)" if "k \<le> Suc (length cs)" for k
    proof -
      have "m * k \<le> m * Suc (length cs)" using that by (rule mult_le_mono2)
      then have "0 + m * k < 2 ^ 53" using h by linarith
      from accumulate_whole[OF this] show ?thesis by simp
    qed
    have "append_audio_all s' (cs @ [c]) =
           Inr (replicate (length cs) INCOMPLETE @ [COMPLETE], clear s' COMPLETE)"
    proof (rule silence_run_complete[where d = "rat_of_nat m"])
      show "speech_triggered s'" by (rule fields)
      show "list_all (silence_chunk (sample_rate s') (rat_of_nat m)) cs" using h fields by simp
      show "silence_chunk (sample_rate s') (rat_of_nat m) c" using h fields by simp
      show "\<forall>k. 1 \<le> k \<and> k \<le> length cs \<longrightarrow>
              accumulate (silence_ms s') (rat_of_nat m) k < stop_ms s'"
      proof (intro allI impI)
        fix k assume k: "1 \<le> k \<and> k \<le> length cs"
        then have "m * k \<le> m * length cs" by simp
        then have "rat_of_nat (m * k) \<le> rat_of_nat (m * length cs)"
          using of_nat_le_iff by blast
        moreover have "rat_of_nat (m * length cs) < stop_ms s" using h by blast
        ultimately have "rat_of_nat (m * k) < stop_ms s" by (rule le_less_trans)
        moreover have "accumulate 0 (rat_of_nat m) k = rat_of_nat (m * k)"
          using k by (intro acc) simp
        ultimately show "accumulate (silence_ms s') (rat_of_nat m) k < stop_ms s'"
          unfolding fields by simp
      qed
      have "accumulate 0 (rat_of_nat m) (Suc (length cs)) = rat_of_nat (m * Suc (length cs))"
        by (intro acc) simp
      moreover have "stop_ms s \<le> rat_of_nat (m * Suc (length cs))" using h by blast
      ultimately show "stop_ms s' \<le> accumulate (silence_ms s') (rat_of_nat m) (Suc (length cs))"
        unfolding fields by simp
    qed
    then show ?thesis using cl by simp
  qed
  then show ?thesis using fields by blast
qed

theorem incomplete_keeps_triggered_witness:
  "\<exists>s'. analyze_end_of_turn
      ((BaseSmartTurn_init 16000 default_SmartTurnParams)
         \<lparr>audio_buffer := [(0, [1 / 2])], speech_triggered := True,
           speech_start_time := Some 0\<rparr>)
      (\<lambda>seg. \<lparr>prediction = 0, probability = 1 / 4\<rparr>) = Inr (INCOMPLETE, s', [[1 / 2]])
    \<and> audio_buffer s' = [] \<and> silence_ms s' = 0 \<and> speech_start_time s' = None
    \<and> speech_triggered s'
    \<and> append_audio_all s'
           (replicate 29 (\<lambda>k. 1, replicate 3200 0, False) @ [(\<lambda>k. 1, replicate 3200 0, False)]) =
         Inr (replicate 29 INCOMPLETE @ [COMPLETE],
              clear (BaseSmartTurn_init 16000 default_SmartTurnParams) COMPLETE)"
proof -
  let ?t = "(BaseSmartTurn_init 16000 default_SmartTurnParams)
         \<lparr>audio_buffer := [(0, [1 / 2])], speech_triggered := True,
           speech_start_time := Some 0\<rparr>"
  let ?p = "\<lambda>seg::rat list. \<lparr>prediction = 0, probability = 1 / 4\<rparr>"
  let ?c = "(\<lambda>k::nat. 1::rat, replicate 3200 (0::byte), False)"
  have "\<exists>s'. analyze_end_of_turn ?t ?p = Inr (INCOMPLETE, s', [[1 / 2]])"
    using analyze_default_example[of 0 "1 / 2" ?p] by simp
  then obtain s' where b: "analyze_end_of_turn ?t ?p = Inr (INCOMPLETE, s', [[1 / 2]])"
    by blast
  have h: "list_all (silence_chunk (sample_rate ?t) (rat_of_nat 100)) (replicate 29 ?c)
             \<and> silence_chunk (sample_rate ?t) (rat_of_nat 100) ?c
             \<and> (100::nat) * Suc (length (replicate 29 ?c)) < 2 ^ 53
             \<and> rat_of_nat (100 * length (replicate 29 ?c)) < stop_ms ?t
             \<and> stop_ms ?t \<le> rat_of_nat (100 * Suc (length (replicate 29 ?c)))"
    by (simp add: BaseSmartTurn_init_def default_SmartTurnParams_def STOP_SECS_def
      silence_chunk_16k list_all_length fmul_def)
  have cl: "clear ?t COMPLETE = clear (BaseSmartTurn_init 16000 default_SmartTurnParams) COMPLETE"
    by (simp add: clear_def)
  from incomplete_keeps_triggered[OF b, of 100 "replicate 29 ?c" ?c] h b cl
  show ?thesis by auto
qed

lemma trim_buffer_drop:
  "\<exists>n\<le>length B. trim_buffer clk k w B = drop n B
        \<and> (\<forall>j<n. fst (B ! j) < fsub (clk (k + j)) w)
        \<and> (n < length B \<longrightarrow> \<not> fst (B ! n) < fsub (clk (k + n)) w)"
proof (induction B arbitrary: k)
  case Nil
  then show ?case by simp
next
  case (Cons e B)
  show ?case
  proof (cases "fst e < fsub (clk k) w")
    case True
    from Cons.IH[of "Suc k"] obtain n where n: "n \<le> length B"
      "trim_buffer clk (Suc k) w B = drop n B"
      "\<forall>j<n. fst (B ! j) < fsub (clk (Suc k + j)) w"
      "n < length B \<longrightarrow> \<not> fst (B ! n) < fsub (clk (Suc k + n)) w"
      by blast
    have "\<forall>j<Suc n. fst ((e # B) ! j) < fsub (clk (k + j)) w"
    proof (intro allI impI)
      fix j assume "j < Suc n"
      then show "fst ((e # B) ! j) < fsub (clk (k + j)) w"
        using True n(3) by (cases j) auto
    qed
    moreover have "trim_buffer clk k w (e # B) = drop (Suc n) (e # B)"
      using True n(2) by simp
    moreover have "Suc n < length (e # B) \<longrightarrow> \<not> fst ((e # B) ! Suc n) < fsub (clk (k + Suc n)) w"
      using n(4) by simp
    moreover have "Suc n \<le> length (e # B)" using n(1) by simp
    ultimately show ?thesis by blast
  next
    case False
    then have "trim_buffer clk k w (e # B) = drop 0 (e # B)" by simp
    moreover have "\<not> fst ((e # B) ! 0) < fsub (clk (k + 0)) w" using False by simp
    ultimately show ?thesis by (intro exI[of _ 0]) simp
  qed
qed

lemma append_audio_idle:
  assumes "frombuffer_int16 b = Inr ws" "\<not> speech_triggered s"
  shows "append_audio s clk b False =
     Inr (INCOMPLETE,
          s\<lparr>audio_buffer :=
              trim_buffer clk 1
                (fadd (fadd (fdiv (pre_speech_ms (params s)) 1000) (stop_secs (params s)))
                   (max_duration_secs (params s)))
                (audio_buffer s @ [(clk 0, to_float32 ws)])\<rparr>)"
  using assms by (simp add: append_audio_def Let_def)

text \<open>
  Claim C4, as the code has it. Let \<open>B\<close> be the buffer with the new chunk appended and
  \<open>w\<close> the window \<^verbatim>\<open>pre_speech_ms / 1000 + stop_secs + max_duration_secs\<close> in float
  arithmetic. A speech chunk leaves \<open>B\<close> as it is: nothing is removed. A silence chunk
  before speech was triggered removes the leading run of old entries of \<open>B\<close>: it pops the
  head as long as the head's timestamp is less than \<^verbatim>\<open>time.time() - w\<close>, with the clock
  read again at each test, and stops at the first entry that is not older. The entries
  behind that one stay, whatever their timestamps.
\<close>

theorem trim_invariant:
  assumes dec: "frombuffer_int16 buffer = Inr ws"
    and B: "B = audio_buffer s @ [(clk 0, to_float32 ws)]"
    and w: "w = fadd (fadd (fdiv (pre_speech_ms (params s)) 1000) (stop_secs (params s)))
                  (max_duration_secs (params s))"
  shows "(\<exists>s'. append_audio s clk buffer True = Inr (INCOMPLETE, s') \<and> audio_buffer s' = B)
       \<and> (\<not> speech_triggered s \<longrightarrow>
            (\<exists>s' n. append_audio s clk buffer False = Inr (INCOMPLETE, s')
               \<and> n \<le> length B \<and> audio_buffer s' = drop n B
               \<and> (\<forall>j<n. fst (B ! j) < fsub (clk (Suc j)) w)
               \<and> (n < length B \<longrightarrow> \<not> fst (B ! n) < fsub (clk (Suc n)) w)))"
proof (intro conjI impI)
  show "\<exists>s'. append_audio s clk buffer True = Inr (INCOMPLETE, s') \<and> audio_buffer s' = B"
    using append_audio_speech[OF dec, of s clk] B by simp
next
  assume idle: "\<not> speech_triggered s"
  define s' where "s' = s\<lparr>audio_buffer := trim_buffer clk 1 w B\<rparr>"
  have run: "append_audio s clk buffer False = Inr (INCOMPLETE, s')"
    using append_audio_idle[OF dec idle, of clk] by (simp add: s'_def B w)
  have buf: "audio_buffer s' = trim_buffer clk 1 w B" by (simp add: s'_def)
  from trim_buffer_drop[of B clk 1 w] obtain n where n: "n \<le> length B"
    "trim_buffer clk 1 w B = drop n B"
    "\<forall>j<n. fst (B ! j) < fsub (clk (Suc j)) w"
    "n < length B \<longrightarrow> \<not> fst (B ! n) < fsub (clk (Suc n)) w"
    by auto
  show "\<exists>s' n. append_audio s clk buffer False = Inr (INCOMPLETE, s')
               \<and> n \<le> length B \<and> audio_buffer s' = drop n B
               \<and> (\<forall>j<n. fst (B ! j) < fsub (clk (Suc j)) w)
               \<and> (n < length B \<longrightarrow> \<not> fst (B ! n) < fsub (clk (Suc n)) w)"
    using run buf n by (intro exI[of _ s'] exI[of _ n]) simp
qed

lemma default_window:
  "fadd (fadd (fdiv (pre_speech_ms (params (BaseSmartTurn_init rate default_SmartTurnParams\<lparr>audio_buffer := b\<rparr>))) 1000)
      (stop_secs (params (BaseSmartTurn_init rate default_SmartTurnParams\<lparr>audio_buffer := b\<rparr>))))
      (max_duration_secs (params (BaseSmartTurn_init rate default_SmartTurnParams\<lparr>audio_buffer := b\<rparr>))) = 11"
  by (simp add: BaseSmartTurn_init_def default_SmartTurnParams_def STOP_SECS_def
      PRE_SPEECH_MS_def MAX_DURATION_SECONDS_def fadd_def fdiv_def)

theorem trim_invariant_witness:
  "(\<exists>s'. append_audio
        ((BaseSmartTurn_init 16000 default_SmartTurnParams)
           \<lparr>audio_buffer := [(0, [0]), (5, [0]), (10, [0])]\<rparr>)
        (\<lambda>k. 20) [0, 0] True = Inr (INCOMPLETE, s')
      \<and> audio_buffer s' = [(0, [0]), (5, [0]), (10, [0]), (20, [0])])
   \<and> (\<exists>s'. append_audio
        ((BaseSmartTurn_init 16000 default_SmartTurnParams)
           \<lparr>audio_buffer := [(0, [0]), (5, [0]), (10, [0])]\<rparr>)
        (\<lambda>k. 20) [0, 0] False = Inr (INCOMPLETE, s')
      \<and> audio_buffer s' = [(10, [0]), (20, [0])])"
proof -
  let ?s = "(BaseSmartTurn_init 16000 default_SmartTurnParams)
           \<lparr>audio_buffer := [(0, [0]), (5, [0]), (10, [0])]\<rparr>"
  let ?B = "[(0, [0]), (5, [0]), (10, [0]), (20, [0])] :: (rat \<times> rat list) list"
  have dec: "frombuffer_int16 [0, 0] = Inr [0]" by simp
  have B: "?B = audio_buffer ?s @ [((\<lambda>k::nat. 20::rat) 0, to_float32 [0])]"
    by (simp add: to_float32_def)
  have w: "(11::rat) = fadd (fadd (fdiv (pre_speech_ms (params ?s)) 1000) (stop_secs (params ?s)))
                  (max_duration_secs (params ?s))"
    using default_window[where rate = 16000 and b = "[(0, [0]), (5, [0]), (10, [0])]"] by simp
  have idle: "\<not> speech_triggered ?s" by (simp add: BaseSmartTurn_init_def)
  have thr: "fsub 20 11 = 9" by (simp add: fsub_def)
  note t = trim_invariant[OF dec B w]
  from t have speech: "\<exists>s'. append_audio ?s (\<lambda>k. 20) [0, 0] True = Inr (INCOMPLETE, s')
      \<and> audio_buffer s' = ?B" by blast
  from t idle obtain s' n where s': "append_audio ?s (\<lambda>k. 20) [0, 0] False = Inr (INCOMPLETE, s')"
    and n: "n \<le> length ?B" "audio_buffer s' = drop n ?B"
      "\<forall>j<n. fst (?B ! j) < fsub ((\<lambda>k::nat. 20::rat) (Suc j)) 11"
      "n < length ?B \<longrightarrow> \<not> fst (?B ! n) < fsub ((\<lambda>k::nat. 20::rat) (Suc n)) 11"
    by blast
  have "n = 2"
  proof -
    have "\<not> n < 2"
    proof
      assume "n < 2"
      then have "n = 0 \<or> n = 1" by auto
      then show False using n(4) by (auto simp: thr)
    qed
    moreover have "\<not> 2 < n"
    proof
      assume "2 < n"
      then have "fst (?B ! 2) < fsub 20 11" using n(3) by blast
      then show False by (simp add: thr)
    qed
    ultimately show ?thesis by linarith
  qed
  then have "audio_buffer s' = [(10, [0]), (20, [0])]" using n(2) by simp
  with s' speech show ?thesis by blast
qed

text \<open>
  The claim C4 as stated fails on a buffer whose timestamps do not ascend (the wall clock
  was set back): with the stamps 15 and 5 buffered and the clock at 20, the window of 11
  seconds makes every entry stamped before 9 too old, yet the loop stops at the head
  stamped 15 and the entry stamped 5 stays in the buffer.
\<close>

theorem trim_invariant_counterexample:
  "append_audio
     ((BaseSmartTurn_init 16000 default_SmartTurnParams)\<lparr>audio_buffer := [(15, [0]), (5, [0])]\<rparr>)
     (\<lambda>k. 20) [0, 0] False
   = Inr (INCOMPLETE,
          (BaseSmartTurn_init 16000 default_SmartTurnParams)
            \<lparr>audio_buffer := [(15, [0]), (5, [0]), (20, [0])]\<rparr>)
   \<and> (5::rat) < 20 - (0 / 1000 + 3 + 8)"
proof -
  let ?s = "(BaseSmartTurn_init 16000 default_SmartTurnParams)\<lparr>audio_buffer := [(15, [0]), (5, [0])]\<rparr>"
  have dec: "frombuffer_int16 [0, 0] = Inr [0]" by simp
  have idle: "\<not> speech_triggered ?s" by (simp add: BaseSmartTurn_init_def)
  have thr: "fsub 20 11 = 9" by (simp add: fsub_def)
  show ?thesis
    using append_audio_idle[OF dec idle, of "\<lambda>k. 20"]
    unfolding default_window
    by (simp add: thr to_float32_def BaseSmartTurn_init_def)
qed

text \<open>
  The window and the threshold are float results. With \<open>pre_speech_ms = 100\<close> the window
  is the float next to 11.1, at the clock reading 1000.5 the threshold is the float next to
  989.4, and a head stamped with that very float is kept: it is not older than the threshold,
  though it is less than the exact difference.
\<close>

lemma window_rounding_steps:
  "fdiv 100 1000 = 3602879701896397 / 36028797018963968"
  "fadd (3602879701896397 / 36028797018963968) 3 = 6980579422424269 / 2251799813685248"
  "fadd (6980579422424269 / 2251799813685248) 8 = 6248744482976563 / 562949953421312"
  "fsub (2001 / 2) (6248744482976563 / 562949953421312) = 8702854436172595 / 8796093022208"
  by code_simp+

lemma window_rounding_example:
  "trim_buffer (\<lambda>k. 2001 / 2) 1 (fadd (fadd (fdiv 100 1000) 3) 8)
     [(8702854436172595 / 8796093022208, chunk)]
   = [(8702854436172595 / 8796093022208, chunk)]
   \<and> (8702854436172595 / 8796093022208 :: rat) < 2001 / 2 - (100 / 1000 + 3 + 8)"
  by (simp add: window_rounding_steps)

lemma normalised_sample_range:
  assumes "normalised_sample x"
  shows "- 1 \<le> x \<and> x \<le> 1"
proof -
  from assms obtain w :: int16 where x: "x = rat_of_int (sint w) / 32768"
    by (auto simp: normalised_sample_def)
  have "- 32768 \<le> sint w" "sint w < 32768"
    using sint_ge[of w] sint_lt[of w] by simp_all
  then have "- 32768 \<le> rat_of_int (sint w)" "rat_of_int (sint w) < 32768"
    by linarith+
  then show ?thesis unfolding x by simp
qed

lemma to_float32_normalised:
  "x \<in> set (to_float32 ws) \<Longrightarrow> normalised_sample x"
  unfolding to_float32_def normalised_sample_def by auto

lemma append_audio_buffer:
  assumes "append_audio s clk buffer is_speech = Inr (d, s')" "frombuffer_int16 buffer = Inr ws"
  shows "(d = COMPLETE \<longrightarrow> audio_buffer s' = [])
       \<and> (d = INCOMPLETE \<and> (is_speech \<or> speech_triggered s) \<longrightarrow>
            audio_buffer s' = audio_buffer s @ [(clk 0, to_float32 ws)])
       \<and> (d = INCOMPLETE \<and> \<not> is_speech \<and> \<not> speech_triggered s \<longrightarrow>
            audio_buffer s' =
              trim_buffer clk 1
                (fadd (fadd (fdiv (pre_speech_ms (params s)) 1000) (stop_secs (params s)))
                   (max_duration_secs (params s)))
                (audio_buffer s @ [(clk 0, to_float32 ws)]))"
  using assms
  by (auto simp: append_audio_def Let_def clear_def split: if_splits)

lemma append_audio_buffer_entries:
  assumes "append_audio s clk buffer is_speech = Inr (d, s')" "frombuffer_int16 buffer = Inr ws"
  shows "set (audio_buffer s') \<subseteq> insert (clk 0, to_float32 ws) (set (audio_buffer s))"
proof -
  let ?B = "audio_buffer s @ [(clk 0, to_float32 ws)]"
  obtain n where "trim_buffer clk 1
         (fadd (fadd (fdiv (pre_speech_ms (params s)) 1000) (stop_secs (params s)))
            (max_duration_secs (params s))) ?B = drop n ?B"
    using trim_buffer_drop by blast
  then have "audio_buffer s' = [] \<or> audio_buffer s' = ?B \<or> audio_buffer s' = drop n ?B"
    using append_audio_buffer[OF assms] by (cases d) auto
  then show ?thesis using set_drop_subset[of n ?B] by auto
qed

lemma reachable_normalised:
  assumes "reachable s"
  shows "\<forall>e\<in>set (audio_buffer s). \<forall>x\<in>set (snd e). normalised_sample x"
  using assms
proof (induction rule: reachable.induct)
  case (init rate p)
  then show ?case by (simp add: BaseSmartTurn_init_def)
next
  case (set_sample_rate s rate)
  then show ?case by simp
next
  case (append s clk buffer is_speech d s')
  from append.hyps(2) obtain ws where ws: "frombuffer_int16 buffer = Inr ws"
    by (auto simp: append_audio_def split: sum.splits)
  show ?case
  proof (intro ballI)
    fix e x assume e: "e \<in> set (audio_buffer s')" and x: "x \<in> set (snd e)"
    from e append_audio_buffer_entries[OF append.hyps(2) ws]
    have "e = (clk 0, to_float32 ws) \<or> e \<in> set (audio_buffer s)" by auto
    then show "normalised_sample x"
      using x append.IH to_float32_normalised by auto
  qed
next
  case (analyze s predict_endpoint d s' calls)
  have "s' = clear s d" by (rule analyze_end_of_turn_state[OF analyze.hyps(2)])
  then show ?case by (simp add: clear_def)
qed

lemma slice_from_drop: "\<exists>j. slice_from a k = drop j a"
  by (auto simp: slice_from_def)

lemma concat_drop_suffix:
  "concat (map snd (drop i buf)) = drop (length (concat (map snd (take i buf)))) (concat (map snd buf))"
proof -
  have "concat (map snd buf) = concat (map snd (take i buf)) @ concat (map snd (drop i buf))"
    by (metis append_take_drop_id concat_append map_append)
  then show ?thesis by simp
qed

lemma process_speech_segment_some:
  assumes "buf \<noteq> []" and "speech_start_time s = Some t0"
  defines "seg \<equiv> concat (map snd
              (drop (find_start_index (fsub t0 (fdiv (pre_speech_ms (params s)) 1000)) 0 buf) buf))"
  defines "max_samples \<equiv> py_int (fmul (max_duration_secs (params s)) (float_of_int (sample_rate s)))"
  defines "seg' \<equiv> (if int (length seg) > max_samples
                       then slice_from seg (- max_samples) else seg)"
  shows "process_speech_segment s predict_endpoint buf =
           (if seg' \<noteq> []
            then Inr (if prediction (predict_endpoint seg') = 1 then COMPLETE else INCOMPLETE,
                      [seg'])
            else Inr (INCOMPLETE, []))"
proof -
  have "take (length buf - 1 + 1 - i) (drop i buf) = drop i buf" for i
    using assms(1) by simp
  then show ?thesis
    using assms(1,2)
    by (simp add: process_speech_segment_def Let_def seg_def max_samples_def seg'_def
        del: concat_eq_Nil_conv)
qed

lemma process_speech_segment_suffix:
  assumes "process_speech_segment s predict_endpoint buf = Inr (d, calls)"
    and "segment \<in> set calls"
  shows "\<exists>k. segment = drop k (concat (map snd buf))"
proof -
  have ne: "buf \<noteq> []"
    using assms by (auto simp: process_speech_segment_def)
  then obtain t0 where t0: "speech_start_time s = Some t0"
    using assms(1) by (cases "speech_start_time s") (auto simp: process_speech_segment_def)
  define i where "i = find_start_index (fsub t0 (fdiv (pre_speech_ms (params s)) 1000)) 0 buf"
  define seg where "seg = concat (map snd (drop i buf))"
  define k where "k = py_int (fmul (max_duration_secs (params s)) (float_of_int (sample_rate s)))"
  have "segment = (if int (length seg) > k then slice_from seg (- k) else seg)"
    using assms process_speech_segment_some[OF ne t0, of predict_endpoint]
    by (auto simp: seg_def k_def i_def split: if_splits)
  then obtain j where "segment = drop j seg"
    using slice_from_drop[of seg "- k"] by (metis drop0)
  then have "segment = drop (length (concat (map snd (take i buf))) + j) (concat (map snd buf))"
    unfolding seg_def concat_drop_suffix[of i buf] by (simp add: add.commute)
  then show ?thesis by blast
qed

text \<open>
  Claim C7. In every state the analyzer reaches, each buffered sample is a 16-bit signed
  integer over 32768 and lies between -1 and 1. \<^verbatim>\<open>append_audio\<close> turns every sample
  \<open>w\<close> of the incoming buffer into \<open>sint w / 32768\<close> and appends the chunk of these to
  the audio buffer: the buffer afterwards is the old one with this chunk at its end, trimmed
  at the head when no speech was triggered, or empty after Complete. Each segment that
  \<^verbatim>\<open>analyze_end_of_turn\<close> hands to the classifier is the end of the buffered samples, so
  all its samples are normalised ones.
\<close>

theorem sample_normalization:
  assumes "reachable s"
  shows "(\<forall>e\<in>set (audio_buffer s). \<forall>x\<in>set (snd e). normalised_sample x \<and> - 1 \<le> x \<and> x \<le> 1)
   \<and> (append_audio s clk buffer is_speech = Inr (d, s') \<longrightarrow>
        (\<exists>ws. frombuffer_int16 buffer = Inr ws
           \<and> (d = COMPLETE \<longrightarrow> audio_buffer s' = [])
           \<and> (d = INCOMPLETE \<and> (is_speech \<or> speech_triggered s) \<longrightarrow>
                audio_buffer s' =
                  audio_buffer s @ [(clk 0, map (\<lambda>w. rat_of_int (sint w) / 32768) ws)])
           \<and> (d = INCOMPLETE \<and> \<not> is_speech \<and> \<not> speech_triggered s \<longrightarrow>
                audio_buffer s' =
                  trim_buffer clk 1
                    (fadd (fadd (fdiv (pre_speech_ms (params s)) 1000) (stop_secs (params s)))
                       (max_duration_secs (params s)))
                    (audio_buffer s @ [(clk 0, map (\<lambda>w. rat_of_int (sint w) / 32768) ws)]))
           \<and> (\<forall>e\<in>set (audio_buffer s'). \<forall>x\<in>set (snd e).
                 normalised_sample x \<and> - 1 \<le> x \<and> x \<le> 1)))
   \<and> (analyze_end_of_turn s predict_endpoint = Inr (d', t', calls) \<longrightarrow>
        (\<forall>segment\<in>set calls.
           (\<exists>k. segment = drop k (concat (map snd (audio_buffer s))))
           \<and> (\<forall>x\<in>set segment. normalised_sample x \<and> - 1 \<le> x \<and> x \<le> 1)))"
proof (intro conjI impI)
  show inv: "\<forall>e\<in>set (audio_buffer s). \<forall>x\<in>set (snd e). normalised_sample x \<and> - 1 \<le> x \<and> x \<le> 1"
    using reachable_normalised[OF assms] normalised_sample_range by blast
next
  assume a: "append_audio s clk buffer is_speech = Inr (d, s')"
  then obtain ws where ws: "frombuffer_int16 buffer = Inr ws"
    by (auto simp: append_audio_def split: sum.splits)
  have "reachable s'" by (rule reachable.append[OF assms a])
  then have "\<forall>e\<in>set (audio_buffer s'). \<forall>x\<in>set (snd e). normalised_sample x \<and> - 1 \<le> x \<and> x \<le> 1"
    using reachable_normalised normalised_sample_range by blast
  then show "\<exists>ws. frombuffer_int16 buffer = Inr ws
           \<and> (d = COMPLETE \<longrightarrow> audio_buffer s' = [])
           \<and> (d = INCOMPLETE \<and> (is_speech \<or> speech_triggered s) \<longrightarrow>
                audio_buffer s' =
                  audio_buffer s @ [(clk 0, map (\<lambda>w. rat_of_int (sint w) / 32768) ws)])
           \<and> (d = INCOMPLETE \<and> \<not> is_speech \<and> \<not> speech_triggered s \<longrightarrow>
                audio_buffer s' =
                  trim_buffer clk 1
                    (fadd (fadd (fdiv (pre_speech_ms (params s)) 1000) (stop_secs (params s)))
                       (max_duration_secs (params s)))
                    (audio_buffer s @ [(clk 0, map (\<lambda>w. rat_of_int (sint w) / 32768) ws)]))
           \<and> (\<forall>e\<in>set (audio_buffer s'). \<forall>x\<in>set (snd e).
                 normalised_sample x \<and> - 1 \<le> x \<and> x \<le> 1)"
    using ws append_audio_buffer[OF a ws] unfolding to_float32_def by blast
next
  assume b: "analyze_end_of_turn s predict_endpoint = Inr (d', t', calls)"
  then have p: "process_speech_segment s predict_endpoint (audio_buffer s) = Inr (d', calls)"
    by (auto simp: analyze_end_of_turn_def split: sum.splits)
  show "\<forall>segment\<in>set calls.
           (\<exists>k. segment = drop k (concat (map snd (audio_buffer s))))
           \<and> (\<forall>x\<in>set segment. normalised_sample x \<and> - 1 \<le> x \<and> x \<le> 1)"
  proof (intro ballI conjI)
    fix segment assume seg: "segment \<in> set calls"
    from process_speech_segment_suffix[OF p seg]
    obtain k where k: "segment = drop k (concat (map snd (audio_buffer s)))" by blast
    then show "\<exists>k. segment = drop k (concat (map snd (audio_buffer s)))" by blast
    fix x assume "x \<in> set segment"
    then have "x \<in> set (concat (map snd (audio_buffer s)))"
      unfolding k by (rule in_set_dropD)
    then obtain e where "e \<in> set (audio_buffer s)" "x \<in> set (snd e)" by auto
    then have n: "normalised_sample x" using reachable_normalised[OF assms] by blast
    then show "normalised_sample x" .
    show "- 1 \<le> x" "x \<le> 1" using normalised_sample_range[OF n] by simp_all
  qed
qed

lemma sint_min_sample: "sint (word_cat (128::byte) (0::byte) :: int16) = - 32768"
  by (simp add: word_cat_eq)

lemma sint_max_sample: "sint (word_cat (127::byte) (255::byte) :: int16) = 32767"
  by (simp add: word_cat_eq)

theorem sample_normalization_witness:
  "reachable ((BaseSmartTurn_init 16000 default_SmartTurnParams)
                \<lparr>audio_buffer := [(7, [- 1])], speech_triggered := True,
                  speech_start_time := Some 8\<rparr>)
   \<and> normalised_sample (- 1)
   \<and> (\<exists>s'. append_audio
               ((BaseSmartTurn_init 16000 default_SmartTurnParams)
                  \<lparr>audio_buffer := [(7, [- 1])], speech_triggered := True,
                    speech_start_time := Some 8\<rparr>)
               (\<lambda>k. 9) [255, 127] True = Inr (INCOMPLETE, s')
         \<and> audio_buffer s' = [(7, [- 1]), (9, [32767 / 32768])]
         \<and> normalised_sample (32767 / 32768))
   \<and> (\<exists>t'. analyze_end_of_turn
           ((BaseSmartTurn_init 16000 default_SmartTurnParams)
              \<lparr>audio_buffer := [(7, [- 1])], speech_triggered := True,
                speech_start_time := Some 8\<rparr>)
           (\<lambda>seg. \<lparr>prediction = 1, probability = 1\<rparr>) = Inr (COMPLETE, t', [[- 1]])
         \<and> (\<exists>k. [- 1] = drop k (concat (map snd [(7::rat, [- 1::rat])]))))"
proof -
  let ?i = "BaseSmartTurn_init 16000 default_SmartTurnParams"
  let ?s = "?i\<lparr>audio_buffer := [(7, [- 1])], speech_triggered := True,
                speech_start_time := Some 8\<rparr>"
  let ?p = "\<lambda>seg::rat list. \<lparr>prediction = 1, probability = 1\<rparr>"
  have dec0: "frombuffer_int16 [0, 128] = Inr [word_cat (128::byte) (0::byte)]" by simp
  have min: "to_float32 [word_cat (128::byte) (0::byte)] = [- 1]"
    unfolding to_float32_def list.map sint_min_sample by simp
  have "append_audio ?i (\<lambda>k. 7 + rat_of_nat k) [0, 128] True = Inr (INCOMPLETE, ?s)"
    using append_audio_speech[OF dec0, of ?i "\<lambda>k. 7 + rat_of_nat k"]
    by (simp add: min BaseSmartTurn_init_def)
  then have r: "reachable ?s"
    using reachable.append[OF reachable.init] by blast
  have dec1: "frombuffer_int16 [255, 127] = Inr [word_cat (127::byte) (255::byte)]" by simp
  have max: "map (\<lambda>w. rat_of_int (sint w) / 32768) [word_cat (127::byte) (255::byte) :: int16]
      = [32767 / 32768]"
    unfolding list.map sint_max_sample by simp
  obtain s' where a: "append_audio ?s (\<lambda>k. 9) [255, 127] True = Inr (INCOMPLETE, s')"
    using append_audio_speech[OF dec1, of ?s "\<lambda>k. 9"] by blast
  have "\<exists>t'. analyze_end_of_turn ?s ?p = Inr (COMPLETE, t', [[- 1]])"
    by (simp add: analyze_end_of_turn_def process_speech_segment_def BaseSmartTurn_init_def
        default_SmartTurnParams_def MAX_DURATION_SECONDS_def PRE_SPEECH_MS_def py_int_def Let_def
        fmul_def float_of_int_def fsub_def fdiv_def)
  then obtain t' where b: "analyze_end_of_turn ?s ?p = Inr (COMPLETE, t', [[- 1]])" by blast
  note n = sample_normalization[OF r, of "\<lambda>k. 9" "[255, 127]" True INCOMPLETE s' ?p COMPLETE t' "[[- 1]]"]
  from n have inv: "\<forall>e\<in>set (audio_buffer ?s). \<forall>x\<in>set (snd e). normalised_sample x" by blast
  then have m1: "normalised_sample (- 1)" by simp
  from n a obtain ws where ws: "frombuffer_int16 [255, 127] = Inr ws"
    and buf: "INCOMPLETE = INCOMPLETE \<and> (True \<or> speech_triggered ?s) \<longrightarrow>
        audio_buffer s' = audio_buffer ?s
          @ [((\<lambda>k::nat. 9::rat) 0, map (\<lambda>w. rat_of_int (sint w) / 32768) ws)]"
    and inv': "\<forall>e\<in>set (audio_buffer s'). \<forall>x\<in>set (snd e). normalised_sample x \<and> - 1 \<le> x \<and> x \<le> 1"
    by blast
  from ws dec1 have wseq: "ws = [word_cat (127::byte) (255::byte)]" by simp
  from buf have b2: "audio_buffer s' = [(7, [- 1]), (9, [32767 / 32768])]"
    unfolding wseq max by simp
  with inv' have m2: "normalised_sample (32767 / 32768)" by simp
  from n b have "\<forall>segment\<in>set [[- 1::rat]]. \<exists>k. segment = drop k (concat (map snd (audio_buffer ?s)))"
    by blast
  then have suf: "\<exists>k. [- 1] = drop k (concat (map snd [(7::rat, [- 1::rat])]))" by simp
  from r m1 a b2 m2 b suf show ?thesis by blast
qed

text \<open>
  Nothing to decide: on an empty buffer, and on a buffer whose chunks hold no samples once
  the speech start time is set, \<^verbatim>\<open>analyze_end_of_turn\<close> returns Incomplete without
  invoking the classifier.
\<close>

lemma analyze_end_of_turn_empty_buffer:
  assumes "audio_buffer s = []"
  shows "analyze_end_of_turn s predict_endpoint = Inr (INCOMPLETE, clear s INCOMPLETE, [])"
  using assms
  by (simp add: analyze_end_of_turn_def process_speech_segment_def USE_ONLY_LAST_VAD_SEGMENT_def)

lemma slice_from_Nil: "slice_from [] k = []"
  by (simp add: slice_from_def)

lemma analyze_end_of_turn_zero_samples:
  assumes "speech_start_time s = Some t0" and "list_all (\<lambda>e. snd e = []) (audio_buffer s)"
  shows "analyze_end_of_turn s predict_endpoint = Inr (INCOMPLETE, clear s INCOMPLETE, [])"
proof (cases "audio_buffer s = []")
  case True
  then show ?thesis by (rule analyze_end_of_turn_empty_buffer)
next
  case False
  have c: "concat (map snd (drop i (audio_buffer s))) = []" for i
    using assms(2) by (auto simp: list_all_iff dest: in_set_dropD)
  have "process_speech_segment s predict_endpoint (audio_buffer s) = Inr (INCOMPLETE, [])"
    using process_speech_segment_some[OF False assms(1), of predict_endpoint]
    unfolding c by (simp add: slice_from_Nil)
  then show ?thesis
    by (simp add: analyze_end_of_turn_def USE_ONLY_LAST_VAD_SEGMENT_def)
qed

text \<open>
  Claim C2 says that \<^verbatim>\<open>analyze_end_of_turn\<close> returns Incomplete, and raises nothing, also
  when no speech start time has been recorded. The code does not: a new analyzer that has
  received one silence chunk holds a non-empty buffer and no speech start time, and
  \<^verbatim>\<open>analyze_end_of_turn\<close> then raises TypeError when it subtracts from the missing
  start time.
\<close>

theorem analyze_without_speech_start_raises:
  "append_audio (BaseSmartTurn_init 16000 default_SmartTurnParams) (\<lambda>k. 0) [0, 0] False
     = Inr (INCOMPLETE,
            (BaseSmartTurn_init 16000 default_SmartTurnParams)\<lparr>audio_buffer := [(0, [0])]\<rparr>)
   \<and> analyze_end_of_turn
        ((BaseSmartTurn_init 16000 default_SmartTurnParams)\<lparr>audio_buffer := [(0, [0])]\<rparr>)
        (\<lambda>segment. \<lparr>prediction = 0, probability = 0\<rparr>)
     = Inl TypeError"
  by (simp add: append_audio_def analyze_end_of_turn_def process_speech_segment_def
      BaseSmartTurn_init_def default_SmartTurnParams_def STOP_SECS_def PRE_SPEECH_MS_def
      MAX_DURATION_SECONDS_def to_float32_def Let_def fadd_def fdiv_def fsub_def fmul_def)

text \<open>
  The clamp where the limit is at least one sample: a segment longer than
  \<open>max_samples = int(max_duration_secs * sample_rate)\<close> is cut to its last
  \<open>max_samples\<close> samples, and these go to the classifier. With 8 seconds at 16 kHz a
  segment of 160000 samples loses its first 32000 and keeps its last 128000.
\<close>

lemma max_duration_clamp:
  assumes "buf \<noteq> []" and "speech_start_time s = Some t0"
    and "seg = concat (map snd
              (drop (find_start_index (fsub t0 (fdiv (pre_speech_ms (params s)) 1000)) 0 buf) buf))"
    and "max_samples = py_int (fmul (max_duration_secs (params s)) (float_of_int (sample_rate s)))"
    and "0 < max_samples" and "max_samples < int (length seg)"
  shows "process_speech_segment s predict_endpoint buf =
           Inr (if prediction (predict_endpoint (drop (length seg - nat max_samples) seg)) = 1
                then COMPLETE else INCOMPLETE,
                [drop (length seg - nat max_samples) seg])
         \<and> int (length (drop (length seg - nat max_samples) seg)) = max_samples"
proof -
  have sl: "slice_from seg (- max_samples) = drop (length seg - nat max_samples) seg"
    using assms(5,6) by (simp add: slice_from_def nat_diff_distrib' max_def)
  have len: "int (length (drop (length seg - nat max_samples) seg)) = max_samples"
    using assms(5,6) by simp
  then have ne: "drop (length seg - nat max_samples) seg \<noteq> []"
    using assms(5) by auto
  show ?thesis
    using process_speech_segment_some[OF assms(1,2), of predict_endpoint] assms(3,4,6) sl len ne
    by simp
qed

lemma max_duration_clamp_default:
  assumes "buf \<noteq> []" and "speech_start_time s = Some t0"
    and "seg = concat (map snd
              (drop (find_start_index (fsub t0 (fdiv (pre_speech_ms (params s)) 1000)) 0 buf) buf))"
    and "max_duration_secs (params s) = 8" and "sample_rate s = 16000"
    and "length seg = 160000"
  shows "process_speech_segment s predict_endpoint buf =
           Inr (if prediction (predict_endpoint (drop 32000 seg)) = 1
                then COMPLETE else INCOMPLETE,
                [drop 32000 seg])
         \<and> length (drop 32000 seg) = 128000"
proof -
  have k: "(128000::int) = py_int (fmul (max_duration_secs (params s)) (float_of_int (sample_rate s)))"
    using assms(4,5) by (simp add: py_int_def fmul_def float_of_int_def)
  from max_duration_clamp[OF assms(1,2,3) k, of predict_endpoint] assms(6)
  show ?thesis by simp
qed

text \<open>
  Claim C5 says that a segment longer than \<open>max_duration_secs * sample_rate\<close> samples is
  cut to its most recent \<open>max_duration_secs * sample_rate\<close> samples. With
  \<open>max_duration_secs = 0\<close> the limit is 0 samples and a segment of two samples exceeds
  it, but the slice \<^verbatim>\<open>segment_audio[-0:]\<close> is the whole segment: both samples are kept
  and handed to the classifier.
\<close>

theorem max_duration_zero_keeps_all:
  "analyze_end_of_turn
     ((BaseSmartTurn_init 16000 \<lparr>stop_secs = 3, pre_speech_ms = 0, max_duration_secs = 0\<rparr>)
        \<lparr>audio_buffer := [(0, [1 / 2, 1 / 4])], speech_triggered := True,
          speech_start_time := Some 0\<rparr>)
     (\<lambda>segment. \<lparr>prediction = 0, probability = 0\<rparr>)
   = Inr (INCOMPLETE,
          (BaseSmartTurn_init 16000 \<lparr>stop_secs = 3, pre_speech_ms = 0, max_duration_secs = 0\<rparr>)
            \<lparr>speech_triggered := True\<rparr>,
          [[1 / 2, 1 / 4]])"
  by (simp add: analyze_end_of_turn_def process_speech_segment_def BaseSmartTurn_init_def
      py_int_def slice_from_def clear_def USE_ONLY_LAST_VAD_SEGMENT_def Let_def
      fmul_def fsub_def fdiv_def float_of_int_def)

section \<open>Properties of the Sarvam language tables\<close>

lemma supported_languages_eq:
  "supported_languages =
     [BN_IN, GU_IN, HI_IN, KN_IN, ML_IN, MR_IN, TA_IN, TE_IN, PA_IN, OR_IN, EN_US, EN_IN, AS_IN]"
  by (simp add: supported_languages_def SARVAM_LANGUAGES_def)

lemma supported_codes_eq:
  "supported_codes =
     [''bn-IN'', ''gu-IN'', ''hi-IN'', ''kn-IN'', ''ml-IN'', ''mr-IN'', ''ta-IN'', ''te-IN'',
      ''pa-IN'', ''od-IN'', ''en-US'', ''en-IN'', ''as-IN'']"
  by (simp add: supported_codes_def language_code_mapping_def)

lemma language_roundtrip:
  "l \<in> set supported_languages \<Longrightarrow> map_language_code_to_enum (language_to_sarvam_language l) = l"
  unfolding supported_languages_eq
  by (auto simp: language_to_sarvam_language_def map_language_code_to_enum_def
      SARVAM_LANGUAGES_def language_code_mapping_def)

lemma code_roundtrip:
  "c \<in> set supported_codes \<Longrightarrow> language_to_sarvam_language (map_language_code_to_enum c) = c"
  unfolding supported_codes_eq
  by (auto simp: language_to_sarvam_language_def map_language_code_to_enum_def
      SARVAM_LANGUAGES_def language_code_mapping_def)

lemma unsupported_language_default:
  "l \<notin> set supported_languages \<Longrightarrow> language_to_sarvam_language l = ''hi-IN''"
proof -
  assume "l \<notin> set supported_languages"
  then have "map_of SARVAM_LANGUAGES l = None"
    by (simp add: supported_languages_def map_of_eq_None_iff)
  then show ?thesis by (simp add: language_to_sarvam_language_def)
qed

lemma unsupported_code_default:
  "c \<notin> set supported_codes \<Longrightarrow> map_language_code_to_enum c = HI_IN"
proof -
  assume "c \<notin> set supported_codes"
  then have "map_of language_code_mapping c = None"
    by (simp add: supported_codes_def map_of_eq_None_iff)
  then show ?thesis by (simp add: map_language_code_to_enum_def)
qed

lemma language_image: "language_to_sarvam_language ` set supported_languages = set supported_codes"
  unfolding supported_languages_eq supported_codes_eq
  by (simp add: language_to_sarvam_language_def SARVAM_LANGUAGES_def)

text \<open>
  Claim C10. The two Sarvam tables have 13 entries each and are inverse to each other: a
  supported language mapped to its code and back is the same language, and a supported code
  mapped to its language and back is the same code. Every other language maps to the code
  \<open>hi-IN\<close> and every other code to the language \<open>HI_IN\<close>.
\<close>

theorem sarvam_language_tables:
  "length supported_languages = 13 \<and> distinct supported_languages
   \<and> length supported_codes = 13 \<and> distinct supported_codes
   \<and> language_to_sarvam_language ` set supported_languages = set supported_codes
   \<and> map_language_code_to_enum ` set supported_codes = set supported_languages
   \<and> (l \<in> set supported_languages \<longrightarrow>
         map_language_code_to_enum (language_to_sarvam_language l) = l)
   \<and> (c \<in> set supported_codes \<longrightarrow>
         language_to_sarvam_language (map_language_code_to_enum c) = c)
   \<and> (l \<notin> set supported_languages \<longrightarrow> language_to_sarvam_language l = ''hi-IN'')
   \<and> (c \<notin> set supported_codes \<longrightarrow> map_language_code_to_enum c = HI_IN)"
proof -
  have "length supported_languages = 13" "distinct supported_languages"
    by (simp_all add: supported_languages_eq)
  moreover have "length supported_codes = 13" "distinct supported_codes"
    by (simp_all add: supported_codes_eq)
  moreover have "map_language_code_to_enum ` set supported_codes = set supported_languages"
    unfolding supported_languages_eq supported_codes_eq
    by (simp add: map_language_code_to_enum_def language_code_mapping_def)
  ultimately show ?thesis
    using language_image language_roundtrip code_roundtrip unsupported_language_default
      unsupported_code_default by blast
qed

theorem sarvam_language_tables_witness:
  "map_language_code_to_enum (language_to_sarvam_language OR_IN) = OR_IN
   \<and> language_to_sarvam_language OR_IN = ''od-IN''
   \<and> language_to_sarvam_language (map_language_code_to_enum ''od-IN'') = ''od-IN''
   \<and> language_to_sarvam_language (OtherLanguage ''fr'') = ''hi-IN''
   \<and> map_language_code_to_enum ''fr-FR'' = HI_IN"
proof -
  have a: "OR_IN \<in> set supported_languages" by (simp add: supported_languages_eq)
  have b: "''od-IN'' \<in> set supported_codes" by (simp add: supported_codes_eq)
  have c: "OtherLanguage ''fr'' \<notin> set supported_languages" by (simp add: supported_languages_eq)
  have d: "''fr-FR'' \<notin> set supported_codes" by (simp add: supported_codes_eq)
  have e: "language_to_sarvam_language OR_IN = ''od-IN''"
    by (simp add: language_to_sarvam_language_def SARVAM_LANGUAGES_def)
  from sarvam_language_tables[of OR_IN "''od-IN''"] a b
  have "map_language_code_to_enum (language_to_sarvam_language OR_IN) = OR_IN"
    "language_to_sarvam_language (map_language_code_to_enum ''od-IN'') = ''od-IN''"
    by blast+
  moreover from sarvam_language_tables[of "OtherLanguage ''fr''" "''fr-FR''"] c d
  have "language_to_sarvam_language (OtherLanguage ''fr'') = ''hi-IN''"
    "map_language_code_to_enum ''fr-FR'' = HI_IN"
    by blast+
  ultimately show ?thesis using e by blast
qed

section \<open>Properties of the services\<close>

lemma str_int_503: "str_int 503 = ''503''"
  by (simp add: str_int_def)

lemma saarika_model: "str_contains ''saarika'' (lower ''saarika:v2.5'')"
  by (simp add: lower_def lower_char_def)




end
